theory Spec2Isabelle
  imports Complex_Main
begin

section \<open>The Resilient Caller: \<^verbatim>\<open>withRetry\<close>\<close>

text \<open>
  \<^verbatim>\<open>withRetry(fn, maxRetries = 5)\<close> awaits a zero-argument asynchronous thunk inside a
  \<^verbatim>\<open>for\<close> loop. The thunk has effects, so it is a state transformer: it takes the state
  of the world it acts on and gives back its settlement (\<open>Inl\<close> a thrown error, \<open>Inr\<close> a
  value) with the new state. What the loop itself does to the outside (calling the thunk,
  \<^verbatim>\<open>console.warn\<close>, sleeping through \<^verbatim>\<open>setTimeout\<close>) is recorded in a trace.
\<close>

datatype ('e, 'a) settled = Fulfilled 'a | FulfilledUndefined | Rejected 'e

datatype retry_event = Invoked | Warned nat nat | Slept nat

function withRetry_loop ::
  "('s \<Rightarrow> ('e + 'a) \<times> 's) \<Rightarrow> nat \<Rightarrow> nat \<Rightarrow> nat \<Rightarrow> 's \<Rightarrow> retry_event list
     \<Rightarrow> ('e, 'a) settled \<times> 's \<times> retry_event list" where
  "withRetry_loop fn maxRetries i delay s tr =
     (if i < maxRetries then
        (case fn s of
           (Inr v, s') \<Rightarrow> (Fulfilled v, s', tr @ [Invoked])
         | (Inl err, s') \<Rightarrow>
             if i = maxRetries - 1 then (Rejected err, s', tr @ [Invoked])
             else withRetry_loop fn maxRetries (i + 1) (delay * 2) s'
                    (tr @ [Invoked, Warned (i + 1) delay, Slept delay]))
      else (FulfilledUndefined, s, tr))"
  by pat_completeness auto
termination
  by (relation "measure (\<lambda>(fn, maxRetries, i, delay, s, tr). maxRetries - i)") auto

declare withRetry_loop.simps [simp del]

text \<open>The loop starts at \<^verbatim>\<open>i = 0\<close> with \<^verbatim>\<open>delay = 1000\<close>; the default of
  \<^verbatim>\<open>maxRetries\<close> is 5.\<close>

definition withRetry ::
  "('s \<Rightarrow> ('e + 'a) \<times> 's) \<Rightarrow> nat \<Rightarrow> 's \<Rightarrow> ('e, 'a) settled \<times> 's \<times> retry_event list" where
  "withRetry fn maxRetries s = withRetry_loop fn maxRetries 0 1000 s []"

definition withRetry_default ::
  "('s \<Rightarrow> ('e + 'a) \<times> 's) \<Rightarrow> 's \<Rightarrow> ('e, 'a) settled \<times> 's \<times> retry_event list" where
  "withRetry_default fn = withRetry fn 5"

text \<open>Reading a trace: the delays slept, in order, and the number of calls of the thunk.\<close>

fun sleeps :: "retry_event list \<Rightarrow> nat list" where
  "sleeps [] = []"
| "sleeps (Slept d # tr) = d # sleeps tr"
| "sleeps (_ # tr) = sleeps tr"

fun invocations :: "retry_event list \<Rightarrow> nat" where
  "invocations [] = 0"
| "invocations (Invoked # tr) = Suc (invocations tr)"
| "invocations (_ # tr) = invocations tr"

text \<open>
  An operation whose outcome depends only on how often it has been called: the state is
  the number of calls made so far, \<open>f n\<close> is the outcome of call number \<open>n\<close> (counted
  from 0).
\<close>

definition scripted :: "(nat \<Rightarrow> 'e + 'a) \<Rightarrow> nat \<Rightarrow> ('e + 'a) \<times> nat" where
  "scripted f n = (f n, Suc n)"

text \<open>The state before call number \<open>j\<close> of a thunk started in \<open>s\<close>.\<close>

fun state_before :: "('s \<Rightarrow> ('e + 'a) \<times> 's) \<Rightarrow> 's \<Rightarrow> nat \<Rightarrow> 's" where
  "state_before fn s 0 = s"
| "state_before fn s (Suc j) = state_before fn (snd (fn s)) j"

text \<open>The trace of \<open>k\<close> failed attempts, the first of them being attempt \<open>i\<close> of the loop
  with delay \<open>d\<close>.\<close>

fun failed_rounds :: "nat \<Rightarrow> nat \<Rightarrow> nat \<Rightarrow> retry_event list" where
  "failed_rounds i d 0 = []"
| "failed_rounds i d (Suc k) =
     [Invoked, Warned (i + 1) d, Slept d] @ failed_rounds (i + 1) (d * 2) k"


section \<open>JavaScript values\<close>

text \<open>
  The values the program handles come out of \<^verbatim>\<open>JSON.parse\<close> and out of property reads,
  so they are JSON values together with \<^verbatim>\<open>undefined\<close>. A number is an IEEE double: every
  finite double is a rational, and the program does no arithmetic on the numbers it
  receives (it only coerces and tests them), so finite numbers are rationals here, beside
  \<^verbatim>\<open>NaN\<close> and the two infinities. An object is the list of its own properties; a
  property read takes the first entry with the key.
\<close>

datatype jsnum = NaN | Fin rat | PosInfinity | NegInfinity

datatype jsval =
    JUndefined
  | JNull
  | JBool bool
  | JNum jsnum
  | JStr string
  | JArr "jsval list"
  | JObj "(string \<times> jsval) list"

datatype error =
    FetchRejected string
  | ApiCallFailed nat string
  | BodySyntaxError string
  | TypeError string
  | EmptyResponse
  | MalformedJson string
  | GenerationFailed string
  | NoCollectionPath

text \<open>Truthiness, as \<^verbatim>\<open>if (v)\<close>, \<^verbatim>\<open>!v\<close>, \<^verbatim>\<open>a && b\<close> and \<^verbatim>\<open>a || b\<close> test it.\<close>

fun truthy :: "jsval \<Rightarrow> bool" where
  "truthy JUndefined = False"
| "truthy JNull = False"
| "truthy (JBool b) = b"
| "truthy (JNum n) = (n \<noteq> NaN \<and> n \<noteq> Fin 0)"
| "truthy (JStr s) = (s \<noteq> [])"
| "truthy (JArr xs) = True"
| "truthy (JObj kvs) = True"


text \<open>
  \<^verbatim>\<open>v.k\<close>: reading a property of \<^verbatim>\<open>null\<close> or \<^verbatim>\<open>undefined\<close> throws a TypeError; an
  object gives its own property or \<^verbatim>\<open>undefined\<close>; any other value gives
  \<^verbatim>\<open>undefined\<close> for the keys the program reads (none of them is a member of a built-in
  prototype). \<^verbatim>\<open>v?.k\<close> gives \<^verbatim>\<open>undefined\<close> instead of throwing.
\<close>

fun get_prop :: "jsval \<Rightarrow> string \<Rightarrow> error + jsval" where
  "get_prop JUndefined k = Inl (TypeError (''Cannot read properties of undefined (reading '' @ k @ '')''))"
| "get_prop JNull k = Inl (TypeError (''Cannot read properties of null (reading '' @ k @ '')''))"
| "get_prop (JObj kvs) k = Inr (case map_of kvs k of None \<Rightarrow> JUndefined | Some v \<Rightarrow> v)"
| "get_prop v k = Inr JUndefined"

fun opt_prop :: "jsval \<Rightarrow> string \<Rightarrow> jsval" where
  "opt_prop (JObj kvs) k = (case map_of kvs k of None \<Rightarrow> JUndefined | Some v \<Rightarrow> v)"
| "opt_prop v k = JUndefined"

text \<open>\<^verbatim>\<open>v?.[0]\<close>: the first element of an array, the first character of a string, the
  property \<^verbatim>\<open>"0"\<close> of an object.\<close>

fun opt_first :: "jsval \<Rightarrow> jsval" where
  "opt_first (JArr xs) = (case xs of [] \<Rightarrow> JUndefined | x # _ \<Rightarrow> x)"
| "opt_first (JStr s) = (case s of [] \<Rightarrow> JUndefined | c # _ \<Rightarrow> JStr [c])"
| "opt_first (JObj kvs) = (case map_of kvs ''0'' of None \<Rightarrow> JUndefined | Some v \<Rightarrow> v)"
| "opt_first v = JUndefined"




text \<open>\<^verbatim>\<open>String.prototype.trim\<close> on the ASCII white space and line terminators.\<close>

definition is_ws :: "char \<Rightarrow> bool" where
  "is_ws c = (of_char c \<in> {9, 10, 11, 12, 13, 32 :: nat})"

definition trim :: "string \<Rightarrow> string" where
  "trim s = rev (dropWhile is_ws (rev (dropWhile is_ws s)))"

text \<open>\<^verbatim>\<open>s.includes(sub)\<close>: \<open>sub\<close> occurs in \<open>s\<close> at some position.\<close>

fun includes_str :: "string \<Rightarrow> string \<Rightarrow> bool" where
  "includes_str [] sub = (sub = [])"
| "includes_str (c # cs) sub = (take (length sub) (c # cs) = sub \<or> includes_str cs sub)"

text \<open>Decimal digits of a number, as a template literal prints it.\<close>

function show_nat :: "nat \<Rightarrow> string" where
  "show_nat n =
     (if n < 10 then [char_of (48 + n)] else show_nat (n div 10) @ [char_of (48 + n mod 10)])"
  by pat_completeness auto
termination
  by (relation "measure id") auto

declare show_nat.simps [simp del]

text \<open>
  A template literal that interpolates a value of unknown type converts it with ToString.
  The conversion is left symbolic: the text is the list of its pieces.
\<close>

datatype piece = Lit string | Interp jsval

type_synonym template = "piece list"

section \<open>The Generation Client: \<^verbatim>\<open>callGeminiApi\<close>\<close>

subsection \<open>The request\<close>

datatype schema = STRING | NUMBER | ARRAY schema | OBJECT "(string \<times> schema) list"

record generation_config =
  responseMimeType :: string
  responseSchema :: schema

record payload =
  contents :: template
  tools :: "string list"
  systemInstruction :: string
  generationConfig :: "generation_config option"

definition array_schema :: schema where
  "array_schema = ARRAY (OBJECT
     [(''title'', STRING),
      (''objective'', STRING),
      (''topic_title'', STRING),
      (''content_draft'', STRING),
      (''question'', STRING),
      (''options'', ARRAY STRING),
      (''correct_answer_index'', NUMBER),
      (''problemStatement'', STRING),
      (''steps'', ARRAY STRING),
      (''expectedOutcome'', STRING)])"

definition lab_schema :: schema where
  "lab_schema = OBJECT
     [(''problemStatement'', STRING),
      (''steps'', ARRAY STRING),
      (''expectedOutcome'', STRING)]"

definition build_payload :: "string \<Rightarrow> template \<Rightarrow> bool \<Rightarrow> payload" where
  "build_payload systemPrompt userQuery isJson =
     \<lparr>contents = userQuery,
      tools = [''google_search''],
      systemInstruction = systemPrompt,
      generationConfig =
        (if isJson then
           Some \<lparr>responseMimeType = ''application/json'',
                 responseSchema =
                   (if includes_str systemPrompt ''single JSON object'' then lab_schema
                    else array_schema)\<rparr>
         else None)\<rparr>"

subsection \<open>The world the program acts on\<close>

text \<open>
  The documents of the four collections of the caller's namespace
  (\<^verbatim>\<open>artifacts/{appId}/users/{userId}/...\<close>). The identifier of a document is the one
  Firestore gives it; identifiers are numbers here. The \<^verbatim>\<open>createdAt\<close> field, the client's
  clock at the time of the write, is left out: the program never reads it.
\<close>

record course_doc =
  c_id :: nat
  c_title :: string
  c_status :: string
  c_userId :: string

record module_doc =
  m_id :: nat
  m_courseId :: nat
  m_title :: jsval
  m_objective :: jsval
  m_order :: nat

record topic_doc =
  t_id :: nat
  t_moduleId :: nat
  t_title :: jsval
  t_content :: jsval
  t_order :: nat

datatype asset_fields =
    McqFields (question: jsval) (options: jsval) (correctIndex: jsnum)
  | LabFields (lab_title: template) (problemStatement: jsval) (steps: jsval)
      (expectedOutcome: jsval)

record asset_doc =
  a_id :: nat
  a_topicId :: nat
  a_type :: string
  a_fields :: asset_fields

text \<open>
  What \<^verbatim>\<open>fetch\<close> gives: a rejection (the request never got a response) or a response with
  its status and body. \<^verbatim>\<open>response.ok\<close> is a status from 200 to 299.
\<close>

record http_response =
  status :: nat
  body :: string

datatype fetch_result = Rejects string | Responds http_response

definition ok :: "http_response \<Rightarrow> bool" where
  "ok response = (200 \<le> status response \<and> status response \<le> 299)"

text \<open>
  The world: the number of requests sent so far and their payloads, the trace of the
  Resilient Caller, the settlement of every generation request awaited so far (kept for
  reference only, the program does not read it), the next fresh document identifier, and
  the four collections. Writes to the store always succeed in this model.
\<close>

record world =
  fetched :: nat
  sent :: "payload list"
  log :: "retry_event list"
  settlements :: "(error, jsval) settled list"
  next_id :: nat
  courses_col :: "course_doc list"
  modules_col :: "module_doc list"
  topics_col :: "topic_doc list"
  assets_col :: "asset_doc list"

subsection \<open>The call\<close>

text \<open>
  \<open>JSON_parse\<close> is the built-in \<^verbatim>\<open>JSON.parse\<close> (\<open>None\<close> when it throws a SyntaxError) and
  \<open>net n\<close> is what the service answers to request number \<open>n\<close>; both are parameters.
  The part of \<^verbatim>\<open>callGeminiApi\<close> after \<^verbatim>\<open>response.json()\<close> is \<open>read_candidate\<close>.
\<close>

definition read_candidate :: "(string \<Rightarrow> jsval option) \<Rightarrow> bool \<Rightarrow> jsval \<Rightarrow> error + jsval" where
  "read_candidate JSON_parse isJson result =
     (case get_prop result ''candidates'' of
        Inl e \<Rightarrow> Inl e
      | Inr candidates \<Rightarrow>
          (let candidate = opt_first candidates;
               text = opt_prop (opt_first (opt_prop (opt_prop candidate ''content'') ''parts''))
                        ''text''
           in if truthy candidate \<and> truthy text then
                (case text of
                   JStr s \<Rightarrow>
                     (let rawText = trim s
                      in if isJson then
                           (case JSON_parse rawText of
                              Some v \<Rightarrow> Inr v
                            | None \<Rightarrow> Inl (MalformedJson rawText))
                         else Inr (JStr rawText))
                 | _ \<Rightarrow> Inl (TypeError ''candidate.content.parts[0].text.trim is not a function''))
              else Inl EmptyResponse))"

definition callGeminiApi ::
  "(string \<Rightarrow> jsval option) \<Rightarrow> (nat \<Rightarrow> fetch_result) \<Rightarrow> string \<Rightarrow> template \<Rightarrow> bool
     \<Rightarrow> world \<Rightarrow> (error + jsval) \<times> world" where
  "callGeminiApi JSON_parse net systemPrompt userQuery isJson w =
     (let payload = build_payload systemPrompt userQuery isJson;
          w' = w\<lparr>fetched := Suc (fetched w), sent := sent w @ [payload]\<rparr>
      in case net (fetched w) of
           Rejects msg \<Rightarrow> (Inl (FetchRejected msg), w')
         | Responds response \<Rightarrow>
             if \<not> ok response then
               (Inl (ApiCallFailed (status response) (body response)), w')
             else
               (case JSON_parse (body response) of
                  None \<Rightarrow> (Inl (BodySyntaxError (body response)), w')
                | Some result \<Rightarrow> (read_candidate JSON_parse isJson result, w')))"


definition outcome_of ::
  "(string \<Rightarrow> jsval option) \<Rightarrow> bool \<Rightarrow> fetch_result \<Rightarrow> error + jsval" where
  "outcome_of JSON_parse isJson answer =
     (case answer of
        Rejects msg \<Rightarrow> Inl (FetchRejected msg)
      | Responds response \<Rightarrow>
          if \<not> ok response then Inl (ApiCallFailed (status response) (body response))
          else
            (case JSON_parse (body response) of
               None \<Rightarrow> Inl (BodySyntaxError (body response))
             | Some result \<Rightarrow> read_candidate JSON_parse isJson result))"


text \<open>The body of a well-formed answer of the service whose textual payload is \<open>s\<close>, as
  \<^verbatim>\<open>response.json()\<close> gives it.\<close>

definition answer_with_text :: "string \<Rightarrow> jsval" where
  "answer_with_text s =
     JObj [(''candidates'',
            JArr [JObj [(''content'', JObj [(''parts'', JArr [JObj [(''text'', JStr s)]])])]])]"

text \<open>The message of each error, as \<^verbatim>\<open>e.message\<close> reads it.\<close>

fun message :: "error \<Rightarrow> string" where
  "message (FetchRejected msg) = msg"
| "message (ApiCallFailed st errorText) =
     ''API call failed with status '' @ show_nat st @ '': '' @ errorText"
| "message (BodySyntaxError b) = ''Unexpected token in JSON''"
| "message (TypeError msg) = msg"
| "message EmptyResponse = ''AI did not return content.''"
| "message (MalformedJson rawText) =
     ''Received invalid JSON response from AI. Raw response: '' @ rawText"
| "message (GenerationFailed msg) = msg"
| "message NoCollectionPath = ''Invalid collection reference''"

text \<open>
  \<^verbatim>\<open>await withRetry(() => callGeminiApi(systemPrompt, userQuery, true))\<close>, as the three
  workflows write it: the call with structured output, under the Resilient Caller with its
  default of 5 attempts.
\<close>

definition generation_request ::
  "(string \<Rightarrow> jsval option) \<Rightarrow> (nat \<Rightarrow> fetch_result) \<Rightarrow> string \<Rightarrow> template \<Rightarrow> world
     \<Rightarrow> (error, jsval) settled \<times> world" where
  "generation_request JSON_parse net systemPrompt userQuery w =
     (case withRetry_default (callGeminiApi JSON_parse net systemPrompt userQuery True) w of
        (r, w', tr) \<Rightarrow> (r, w'\<lparr>log := log w' @ tr, settlements := settlements w' @ [r]\<rparr>))"

text \<open>What \<^verbatim>\<open>await\<close> makes of a settled promise: its value, or the error thrown.\<close>

fun awaited :: "(error, jsval) settled \<Rightarrow> error + jsval" where
  "awaited (Fulfilled v) = Inr v"
| "awaited FulfilledUndefined = Inr JUndefined"
| "awaited (Rejected e) = Inl e"

section \<open>The document store\<close>




definition addDoc_asset :: "nat \<Rightarrow> string \<Rightarrow> asset_fields \<Rightarrow> world \<Rightarrow> nat \<times> world" where
  "addDoc_asset topicId ty flds w =
     (next_id w,
      w\<lparr>next_id := Suc (next_id w),
        assets_col := assets_col w @
          [\<lparr>a_id = next_id w, a_topicId = topicId, a_type = ty, a_fields = flds\<rparr>]\<rparr>)"


definition deleteDoc_asset :: "nat \<Rightarrow> world \<Rightarrow> world" where
  "deleteDoc_asset i w = w\<lparr>assets_col := filter (\<lambda>d. a_id d \<noteq> i) (assets_col w)\<rparr>"

section \<open>The component state\<close>

record app_state =
  db :: bool
  userId :: "string option"
  error :: "string option"
  currentView :: string
  courseName :: string
  course :: "course_doc option"
  modules :: "module_doc list"
  isLoading :: bool
  activeModule :: "module_doc option"
  topics :: "topic_doc list"
  activeTopic :: "topic_doc option"
  selectedTab :: string
  mcqs :: "asset_doc list"
  lab :: "asset_doc option"

text \<open>\<^verbatim>\<open>setError(e.message || fallback)\<close> and \<^verbatim>\<open>setIsLoading(false)\<close>, the \<^verbatim>\<open>catch\<close> and
  \<^verbatim>\<open>finally\<close> blocks of the three workflows.\<close>

definition catch_finally :: "string \<Rightarrow> error option \<Rightarrow> app_state \<Rightarrow> app_state" where
  "catch_finally fallback thrown st =
     (case thrown of
        None \<Rightarrow> st\<lparr>isLoading := False\<rparr>
      | Some e \<Rightarrow>
          st\<lparr>error := Some (if message e = [] then fallback else message e),
             isLoading := False\<rparr>)"

section \<open>The Pipeline Orchestrator\<close>

subsection \<open>\<^verbatim>\<open>handleGenerateCourse\<close>\<close>

definition course_systemPrompt :: string where
  "course_systemPrompt = ''You are a senior curriculum designer. Generate a comprehensive course structure for a specified course aimed at entry-level IT professionals. The output must be structured into 8 distinct modules. Respond only with a JSON array object containing 'title' and 'objective' for each module.''"








subsection \<open>\<^verbatim>\<open>handleGenerateMCQs\<close>\<close>

definition mcq_systemPrompt :: string where
  "mcq_systemPrompt = ''Based only on the provided content, generate 5 multiple-choice questions (MCQs) suitable for a beginner assessment. Each question must have 4 options and clearly identify the correct answer using a 0-indexed integer for 'correct_answer_index'. Respond only with a JSON array object containing 'question', 'options' (array of 4 strings), and 'correct_answer_index'.''"

definition asset_userQuery :: "topic_doc \<Rightarrow> template" where
  "asset_userQuery tp =
     [Lit ''Topic: '', Interp (t_title tp), Lit ([CHR 0x0A] @ ''Content: ''),
      Interp (t_content tp)]"




subsection \<open>\<^verbatim>\<open>handleGenerateLab\<close>\<close>

definition lab_systemPrompt :: string where
  "lab_systemPrompt = ''Design one concise practice exercise or Lab Instruction suitable for a developer based on the content. The output should be a single JSON object containing three fields: 'problemStatement' (short User Story), 'steps' (an array of 3-5 technical steps), and 'expectedOutcome' (a clear final result description). Respond only with a single JSON object.''"

text \<open>The property reads of \<^verbatim>\<open>generatedLabData\<close> come after the test that it is truthy, so
  none of them can throw: they are written with \<open>opt_prop\<close>.\<close>

definition generateLab_try ::
  "(string \<Rightarrow> jsval option) \<Rightarrow> (nat \<Rightarrow> fetch_result) \<Rightarrow> topic_doc \<Rightarrow> app_state \<Rightarrow> world
     \<Rightarrow> error option \<times> world" where
  "generateLab_try JSON_parse net tp st w =
     (case generation_request JSON_parse net lab_systemPrompt (asset_userQuery tp) w of
        (r, w1) \<Rightarrow>
          (case awaited r of
             Inl e \<Rightarrow> (Some e, w1)
           | Inr generatedLabData \<Rightarrow>
               if \<not> truthy generatedLabData
                  \<or> \<not> truthy (opt_prop generatedLabData ''problemStatement'') then
                 (Some (GenerationFailed ''AI failed to generate lab instructions.''), w1)
               else
                 (case userId st of
                    None \<Rightarrow> (Some NoCollectionPath, w1)
                  | Some uid \<Rightarrow>
                      (let w2 = (case lab st of
                                   None \<Rightarrow> w1
                                 | Some l \<Rightarrow> deleteDoc_asset (a_id l) w1)
                       in case addDoc_asset (t_id tp) ''lab''
                                 (LabFields [Interp (t_title tp), Lit '' Practice Lab'']
                                    (opt_prop generatedLabData ''problemStatement'')
                                    (opt_prop generatedLabData ''steps'')
                                    (opt_prop generatedLabData ''expectedOutcome'')) w2 of
                            (newId, w3) \<Rightarrow> (None, w3)))))"

definition handleGenerateLab ::
  "(string \<Rightarrow> jsval option) \<Rightarrow> (nat \<Rightarrow> fetch_result) \<Rightarrow> app_state \<times> world
     \<Rightarrow> app_state \<times> world" where
  "handleGenerateLab JSON_parse net sw =
     (case sw of
        (st, w) \<Rightarrow>
          (case activeTopic st of
             None \<Rightarrow> (st, w)
           | Some tp \<Rightarrow>
               if \<not> db st then (st, w)
               else
                 (let st1 = st\<lparr>isLoading := True, error := None\<rparr>
                  in case generateLab_try JSON_parse net tp st1 w of
                       (None, w') \<Rightarrow>
                         (catch_finally ''An unexpected error occurred during lab generation.''
                            None (st1\<lparr>selectedTab := ''lab''\<rparr>), w')
                     | (Some e, w') \<Rightarrow>
                         (catch_finally ''An unexpected error occurred during lab generation.''
                            (Some e) st1, w'))))"

section \<open>The Sync Engine\<close>

text \<open>The callbacks of the \<^verbatim>\<open>onSnapshot\<close> subscriptions, each applied to the documents of
  the notified snapshot, and the two queries on the assets of a topic.\<close>

definition on_modules_snapshot :: "module_doc list \<Rightarrow> app_state \<Rightarrow> app_state" where
  "on_modules_snapshot docs st =
     (let moduleList = sort_key m_order docs;
          st1 = st\<lparr>modules := moduleList\<rparr>
      in if currentView st = ''module'' \<or> currentView st = ''topic'' then
           (case activeModule st of
              None \<Rightarrow> st1
            | Some am \<Rightarrow>
                (case find (\<lambda>m. m_id m = m_id am) moduleList of
                   None \<Rightarrow> st1
                 | Some updatedActive \<Rightarrow> st1\<lparr>activeModule := Some updatedActive\<rparr>))
         else st1)"

definition mcqQuery :: "nat \<Rightarrow> world \<Rightarrow> asset_doc list" where
  "mcqQuery topicId w =
     filter (\<lambda>a. a_topicId a = topicId \<and> a_type a = ''mcq'') (assets_col w)"

definition labQuery :: "nat \<Rightarrow> world \<Rightarrow> asset_doc list" where
  "labQuery topicId w =
     filter (\<lambda>a. a_topicId a = topicId \<and> a_type a = ''lab'') (assets_col w)"

definition on_mcqs_snapshot :: "asset_doc list \<Rightarrow> app_state \<Rightarrow> app_state" where
  "on_mcqs_snapshot docs st = st\<lparr>mcqs := docs\<rparr>"

definition on_lab_snapshot :: "asset_doc list \<Rightarrow> app_state \<Rightarrow> app_state" where
  "on_lab_snapshot docs st =
     (case docs of [] \<Rightarrow> st\<lparr>lab := None\<rparr> | d # _ \<Rightarrow> st\<lparr>lab := Some d\<rparr>)"

section \<open>Notions used in the statements\<close>



text \<open>The \<^verbatim>\<open>lab\<close> asset written for the generated object \<open>g\<close>.\<close>

definition lab_asset :: "topic_doc \<Rightarrow> nat \<Rightarrow> jsval \<Rightarrow> asset_doc" where
  "lab_asset tp i g =
     \<lparr>a_id = i, a_topicId = t_id tp, a_type = ''lab'',
      a_fields = LabFields [Interp (t_title tp), Lit '' Practice Lab'']
        (opt_prop g ''problemStatement'') (opt_prop g ''steps'') (opt_prop g ''expectedOutcome'')\<rparr>"

text \<open>
  The local slices \<^verbatim>\<open>mcqs\<close> and \<^verbatim>\<open>lab\<close> reflect the store: the effect on the active topic
  has run and both of its subscriptions have delivered the present result of their query.
  Without a store handle, a caller identity or an active topic the effect clears both
  slices.
\<close>

definition assets_delivered :: "app_state \<Rightarrow> world \<Rightarrow> app_state" where
  "assets_delivered st w =
     (if \<not> db st \<or> userId st = None then st\<lparr>mcqs := [], lab := None\<rparr>
      else
        (case activeTopic st of
           None \<Rightarrow> st\<lparr>mcqs := [], lab := None\<rparr>
         | Some tp \<Rightarrow>
             on_lab_snapshot (labQuery (t_id tp) w)
               (on_mcqs_snapshot (mcqQuery (t_id tp) w) st)))"

text \<open>\<open>n\<close> invocations of generate-lab in a row, each with the local slices reflecting the
  store.\<close>

fun lab_runs ::
  "(string \<Rightarrow> jsval option) \<Rightarrow> (nat \<Rightarrow> fetch_result) \<Rightarrow> nat \<Rightarrow> app_state \<times> world
     \<Rightarrow> app_state \<times> world" where
  "lab_runs JSON_parse net 0 sw = sw"
| "lab_runs JSON_parse net (Suc n) sw =
     lab_runs JSON_parse net n
       (handleGenerateLab JSON_parse net (assets_delivered (fst sw) (snd sw), snd sw))"




section \<open>Concrete inputs\<close>

text \<open>
  The state of the component once Firebase is initialised and the caller is signed in (the
  initial values of the \<^verbatim>\<open>useState\<close> hooks), and a world in which nothing has happened yet.
\<close>

definition ready_state :: app_state where
  "ready_state =
     \<lparr>db = True, userId = Some ''u1'', error = None, currentView = ''home'',
      courseName = ''Full Stack Java'', course = None, modules = [], isLoading = False,
      activeModule = None, topics = [], activeTopic = None, selectedTab = ''content'',
      mcqs = [], lab = None\<rparr>"

definition initial_world :: world where
  "initial_world =
     \<lparr>fetched = 0, sent = [], log = [], settlements = [], next_id = 0, courses_col = [],
      modules_col = [], topics_col = [], assets_col = []\<rparr>"

definition sample_topic :: topic_doc where
  "sample_topic =
     \<lparr>t_id = 7, t_moduleId = 3, t_title = JStr ''Loops'', t_content = JStr ''A loop repeats.'',
      t_order = 1\<rparr>"

text \<open>
  The body of an answer of the service whose textual payload is \<open>s\<close>, as the text that
  \<^verbatim>\<open>response.json()\<close> parses: the payload is a JSON string, so its quotes and backslashes
  are escaped.
\<close>

definition json_quote :: "string \<Rightarrow> string" where
  "json_quote s =
     concat (map (\<lambda>c. if c = CHR 0x22 \<or> c = CHR 0x5C then [CHR 0x5C, c] else [c]) s)"

definition answer_body :: "string \<Rightarrow> string" where
  \<open>answer_body s =
     ''{"candidates":[{"content":{"parts":[{"text":"'' @ json_quote s @ ''"}]}}]}''\<close>

text \<open>
  \<^verbatim>\<open>JSON.parse\<close> on the texts of the examples below: the JSON texts of
  \<open>sample_values\<close> with their values, and the answer bodies that carry one of
  \<open>sample_texts\<close>. No other text is parsed in the examples.
\<close>

definition sample_values :: "(string \<times> jsval) list" where
  \<open>sample_values =
     [(''null'', JNull),
      (''42'', JNum (Fin 42)),
      (''[1]'', JArr [JNum (Fin 1)]),
      (''[null]'', JArr [JNull]),
      (''[{},{}]'', JArr [JObj [], JObj []]),
      (''{"candidates":[]}'', JObj [(''candidates'', JArr [])]),
      (''[{"correct_answer_index":1.5}]'',
         JArr [JObj [(''correct_answer_index'', JNum (Fin (3 / 2)))]]),
      (''[{"question":"q","options":["a","b","c","d"],"correct_answer_index":2}]'',
         JArr [JObj [(''question'', JStr ''q''),
                     (''options'', JArr [JStr ''a'', JStr ''b'', JStr ''c'', JStr ''d'']),
                     (''correct_answer_index'', JNum (Fin 2))]]),
      (''{"problemStatement":"p","steps":["s"],"expectedOutcome":"o"}'',
         JObj [(''problemStatement'', JStr ''p''), (''steps'', JArr [JStr ''s'']),
               (''expectedOutcome'', JStr ''o'')]),
      (''[{"title":"T","objective":"O"}]'',
         JArr [JObj [(''title'', JStr ''T''), (''objective'', JStr ''O'')]]),
      (''[{"topic_title":"A"},{"content_draft":"B"}]'',
         JArr [JObj [(''topic_title'', JStr ''A'')], JObj [(''content_draft'', JStr ''B'')]]),
      (''{"topic_title":"A"}'', JObj [(''topic_title'', JStr ''A'')])]\<close>

definition sample_texts :: "string list" where
  "sample_texts = ''oops'' # '' oops '' # map fst sample_values"

definition sample_JSON_parse :: "string \<Rightarrow> jsval option" where
  "sample_JSON_parse s =
     (case map_of sample_values s of
        Some v \<Rightarrow> Some v
      | None \<Rightarrow>
          (case filter (\<lambda>t. answer_body t = s) sample_texts of
             [] \<Rightarrow> None
           | t # _ \<Rightarrow> Some (answer_with_text t)))"

definition sample_mcq_text :: string where
  \<open>sample_mcq_text =
     ''[{"question":"q","options":["a","b","c","d"],"correct_answer_index":2}]''\<close>

definition sample_lab_text :: string where
  \<open>sample_lab_text = ''{"problemStatement":"p","steps":["s"],"expectedOutcome":"o"}''\<close>

text \<open>A service that answers request number \<open>n\<close> with status 200 and the \<open>n\<close>-th of the
  given bodies, and is unreachable once the bodies are used up.\<close>

definition answers :: "string list \<Rightarrow> nat \<Rightarrow> fetch_result" where
  "answers bodies n =
     (if n < length bodies then Responds \<lparr>status = 200, body = bodies ! n\<rparr>
      else Rejects ''Failed to fetch'')"

text \<open>A service whose first answer has no candidate and whose second answer carries a text
  that is not JSON, before it answers with a list of one MCQ.\<close>

definition flaky_service :: "nat \<Rightarrow> fetch_result" where
  \<open>flaky_service =
     answers [''{"candidates":[]}'', answer_body ''oops'', answer_body sample_mcq_text]\<close>

text \<open>Two versions of a module, stored under the same identifier, and a second module.\<close>

definition module_old :: module_doc where
  "module_old = \<lparr>m_id = 1, m_courseId = 0, m_title = JStr ''Basics'', m_objective = JStr ''Start'',
                 m_order = 1\<rparr>"

definition module_new :: module_doc where
  "module_new = \<lparr>m_id = 1, m_courseId = 0, m_title = JStr ''Basics, revised'',
                 m_objective = JStr ''Start'', m_order = 1\<rparr>"

definition module_two :: module_doc where
  "module_two = \<lparr>m_id = 2, m_courseId = 0, m_title = JStr ''Loops'', m_objective = JStr ''Repeat'',
                 m_order = 2\<rparr>"

text \<open>The state of the component while the sample topic is open.\<close>

definition topic_open :: app_state where
  "topic_open = ready_state\<lparr>currentView := ''topic'', activeTopic := Some sample_topic\<rparr>"


section \<open>Properties of the Resilient Caller\<close>

lemma sleeps_append: "sleeps (a @ b) = sleeps a @ sleeps b"
  by (induction a rule: sleeps.induct) auto

lemma invocations_append: "invocations (a @ b) = invocations a + invocations b"
  by (induction a rule: invocations.induct) auto

lemma sleeps_failed_rounds: "sleeps (failed_rounds i d k) = map (\<lambda>j. d * 2 ^ j) [0..<k]"
proof (induction k arbitrary: i d)
  case 0 show ?case by simp
next
  case (Suc k)
  have "map (\<lambda>j. d * 2 ^ j) [0..<Suc k] = d # map (\<lambda>j. d * 2 * 2 ^ j) [0..<k]"
    by (simp add: upt_conv_Cons map_Suc_upt[symmetric] del: upt_Suc)
  with Suc show ?case by simp
qed

lemma invocations_failed_rounds: "invocations (failed_rounds i d k) = k"
  by (induction k arbitrary: i d) auto

text \<open>When the first \<open>k\<close> calls from state \<open>s\<close> fail, call \<open>k\<close> succeeds and the loop has
  room for it, the loop returns that value after exactly \<open>k\<close> rounds of warn-and-sleep.\<close>

lemma withRetry_loop_fails_then_succeeds:
  assumes "i + k < maxRetries"
    and "\<forall>j<k. isl (fst (fn (state_before fn s j)))"
    and "fst (fn (state_before fn s k)) = Inr v"
  shows "withRetry_loop fn maxRetries i d s tr =
           (Fulfilled v, snd (fn (state_before fn s k)), tr @ failed_rounds i d k @ [Invoked])"
  using assms
proof (induction k arbitrary: i d s tr)
  case 0
  then show ?case
    by (subst withRetry_loop.simps) (auto split: prod.splits sum.splits)
next
  case (Suc k)
  from Suc.prems(2) have "isl (fst (fn s))" by force
  then obtain e s' where fs: "fn s = (Inl e, s')"
    by (cases "fn s") (auto simp: isl_def)
  have rest: "withRetry_loop fn maxRetries (i + 1) (d * 2) s'
                 (tr @ [Invoked, Warned (i + 1) d, Slept d]) =
        (Fulfilled v, snd (fn (state_before fn s' k)),
         (tr @ [Invoked, Warned (i + 1) d, Slept d]) @ failed_rounds (i + 1) (d * 2) k @ [Invoked])"
  proof (rule Suc.IH)
    show "i + 1 + k < maxRetries" using Suc.prems(1) by simp
    show "\<forall>j<k. isl (fst (fn (state_before fn s' j)))"
      using Suc.prems(2) fs by (metis Suc_less_eq snd_conv state_before.simps(2))
    show "fst (fn (state_before fn s' k)) = Inr v"
      using Suc.prems(3) fs by simp
  qed
  from Suc.prems(1) have "i < maxRetries" "i \<noteq> maxRetries - 1" by auto
  with rest show ?case
    by (subst withRetry_loop.simps) (simp add: fs)
qed

text \<open>When the calls fail up to and including the last attempt the loop allows, the error of
  that last attempt is thrown, and the thunk is not called again.\<close>

lemma withRetry_loop_exhausted:
  assumes "i + k = maxRetries - 1" "0 < maxRetries"
    and "\<forall>j<k. isl (fst (fn (state_before fn s j)))"
    and "fst (fn (state_before fn s k)) = Inl e"
  shows "withRetry_loop fn maxRetries i d s tr =
           (Rejected e, snd (fn (state_before fn s k)), tr @ failed_rounds i d k @ [Invoked])"
  using assms
proof (induction k arbitrary: i d s tr)
  case 0
  then show ?case
    by (subst withRetry_loop.simps) (auto split: prod.splits sum.splits)
next
  case (Suc k)
  from Suc.prems(3) have "isl (fst (fn s))" by force
  then obtain e' s' where fs: "fn s = (Inl e', s')"
    by (cases "fn s") (auto simp: isl_def)
  have rest: "withRetry_loop fn maxRetries (i + 1) (d * 2) s'
                 (tr @ [Invoked, Warned (i + 1) d, Slept d]) =
        (Rejected e, snd (fn (state_before fn s' k)),
         (tr @ [Invoked, Warned (i + 1) d, Slept d]) @ failed_rounds (i + 1) (d * 2) k @ [Invoked])"
  proof (rule Suc.IH)
    show "i + 1 + k = maxRetries - 1" using Suc.prems(1) by simp
    show "0 < maxRetries" by fact
    show "\<forall>j<k. isl (fst (fn (state_before fn s' j)))"
      using Suc.prems(3) fs by (metis Suc_less_eq snd_conv state_before.simps(2))
    show "fst (fn (state_before fn s' k)) = Inl e"
      using Suc.prems(4) fs by simp
  qed
  from Suc.prems(1,2) have "i < maxRetries" "i \<noteq> maxRetries - 1" by auto
  with rest show ?case
    by (subst withRetry_loop.simps) (simp add: fs)
qed

lemma state_before_scripted: "state_before (scripted f) n j = n + j"
  by (induction j arbitrary: n) (auto simp: scripted_def)

lemma take_delays: "k \<le> 4 \<Longrightarrow> map (\<lambda>j. 1000 * 2 ^ j) [0..<k] = take k [1000, 2000, 4000, 8000 :: nat]"
proof -
  assume "k \<le> 4"
  then consider "k = 0" | "k = 1" | "k = 2" | "k = 3" | "k = 4" by linarith
  then show ?thesis
    by cases (simp_all add: upt_conv_Cons)
qed

lemma failed_rounds_four:
  "failed_rounds i d 4 =
     [Invoked, Warned (i + 1) d, Slept d, Invoked, Warned (i + 2) (d * 2), Slept (d * 2),
      Invoked, Warned (i + 3) (d * 4), Slept (d * 4),
      Invoked, Warned (i + 4) (d * 8), Slept (d * 8)]"
proof -
  have "failed_rounds i d (Suc (Suc (Suc (Suc 0)))) =
     [Invoked, Warned (i + 1) d, Slept d, Invoked, Warned (i + 2) (d * 2), Slept (d * 2),
      Invoked, Warned (i + 3) (d * 4), Slept (d * 4),
      Invoked, Warned (i + 4) (d * 8), Slept (d * 8)]"
    by (simp add: mult.assoc)
  moreover have "(4 :: nat) = Suc (Suc (Suc (Suc 0)))" by simp
  ultimately show ?thesis by metis
qed

text \<open>
  Claim C2. With at most 5 attempts: when the operation fails on its first \<open>k \<le> 4\<close> calls and
  succeeds on the next one, \<^verbatim>\<open>withRetry\<close> returns the value of that call, the operation has
  been called \<open>k + 1\<close> times and no more (no retry after a success), each failed call is
  followed by one sleep before the next call, and the delays slept are the first \<open>k\<close> of
  1000, 2000, 4000, 8000 in that order. When the operation fails on all of its first five
  calls, the error of the fifth call is thrown, after the sleeps 1000, 2000, 4000, 8000, and
  the operation has been called five times: there is no sixth call.
\<close>

theorem withRetry_five_attempts:
  fixes f :: "nat \<Rightarrow> 'e + 'a"
  shows "(k \<le> 4 \<and> (\<forall>j<k. isl (f (n + j))) \<and> f (n + k) = Inr v \<longrightarrow>
            (\<exists>tr. withRetry (scripted f) 5 n = (Fulfilled v, n + k + 1, tr) \<and>
                  tr = failed_rounds 0 1000 k @ [Invoked] \<and>
                  sleeps tr = take k [1000, 2000, 4000, 8000] \<and>
                  invocations tr = k + 1))
       \<and> ((\<forall>j<4. isl (f (n + j))) \<and> f (n + 4) = Inl e \<longrightarrow>
            (\<exists>tr. withRetry (scripted f) 5 n = (Rejected e, n + 5, tr) \<and>
                  tr = failed_rounds 0 1000 4 @ [Invoked] \<and>
                  sleeps tr = [1000, 2000, 4000, 8000] \<and>
                  invocations tr = 5))"
proof (intro conjI impI)
  assume h: "k \<le> 4 \<and> (\<forall>j<k. isl (f (n + j))) \<and> f (n + k) = Inr v"
  have "withRetry_loop (scripted f) 5 0 1000 n [] =
          (Fulfilled v, snd (scripted f (state_before (scripted f) n k)),
           [] @ failed_rounds 0 1000 k @ [Invoked])"
    by (rule withRetry_loop_fails_then_succeeds)
       (use h in \<open>simp_all add: state_before_scripted scripted_def\<close>)
  then have run: "withRetry (scripted f) 5 n =
      (Fulfilled v, n + k + 1, failed_rounds 0 1000 k @ [Invoked])"
    by (simp add: withRetry_def state_before_scripted scripted_def)
  have sl: "sleeps (failed_rounds 0 1000 k @ [Invoked]) = take k [1000, 2000, 4000, 8000]"
    using h by (simp add: sleeps_append sleeps_failed_rounds take_delays)
  have inv: "invocations (failed_rounds 0 1000 k @ [Invoked]) = k + 1"
    by (simp add: invocations_append invocations_failed_rounds)
  from run sl inv
  show "\<exists>tr. withRetry (scripted f) 5 n = (Fulfilled v, n + k + 1, tr) \<and>
             tr = failed_rounds 0 1000 k @ [Invoked] \<and>
             sleeps tr = take k [1000, 2000, 4000, 8000] \<and> invocations tr = k + 1"
    by blast
next
  assume h: "(\<forall>j<4. isl (f (n + j))) \<and> f (n + 4) = Inl e"
  have "withRetry_loop (scripted f) 5 0 1000 n [] =
          (Rejected e, snd (scripted f (state_before (scripted f) n 4)),
           [] @ failed_rounds 0 1000 4 @ [Invoked])"
    by (rule withRetry_loop_exhausted)
       (use h in \<open>simp_all add: state_before_scripted scripted_def\<close>)
  then have run: "withRetry (scripted f) 5 n =
      (Rejected e, n + 5, failed_rounds 0 1000 4 @ [Invoked])"
    by (simp add: withRetry_def state_before_scripted scripted_def)
  have sl: "sleeps (failed_rounds 0 1000 4 @ [Invoked]) = [1000, 2000, 4000, 8000]"
    using take_delays [of 4]
    by (simp only: sleeps_append sleeps_failed_rounds) simp
  have inv: "invocations (failed_rounds 0 1000 4 @ [Invoked]) = 5"
    by (simp add: invocations_append invocations_failed_rounds)
  from run sl inv
  show "\<exists>tr. withRetry (scripted f) 5 n = (Rejected e, n + 5, tr) \<and>
             tr = failed_rounds 0 1000 4 @ [Invoked] \<and>
             sleeps tr = [1000, 2000, 4000, 8000] \<and> invocations tr = 5"
    by blast
qed

text \<open>The two cases of C2 at concrete operations: four failures and then the value 42; and
  five failures, of which the fifth error (numbered 4) is the one thrown.\<close>

theorem withRetry_five_attempts_witness:
  "withRetry (scripted (\<lambda>j. if j < 4 then Inl j else Inr (42 :: nat))) 5 0 =
     (Fulfilled 42, 5,
      [Invoked, Warned 1 1000, Slept 1000, Invoked, Warned 2 2000, Slept 2000,
       Invoked, Warned 3 4000, Slept 4000, Invoked, Warned 4 8000, Slept 8000, Invoked])
   \<and> withRetry (scripted (\<lambda>j. (Inl j :: nat + nat))) 5 0 =
     (Rejected 4, 5,
      [Invoked, Warned 1 1000, Slept 1000, Invoked, Warned 2 2000, Slept 2000,
       Invoked, Warned 3 4000, Slept 4000, Invoked, Warned 4 8000, Slept 8000, Invoked])"
proof -
  have four: "failed_rounds 0 1000 4 @ [Invoked] =
      [Invoked, Warned 1 1000, Slept 1000, Invoked, Warned 2 2000, Slept 2000,
       Invoked, Warned 3 4000, Slept 4000, Invoked, Warned 4 8000, Slept 8000, Invoked]"
    by (simp add: failed_rounds_four)
  have a: "withRetry (scripted (\<lambda>j. if j < 4 then Inl j else Inr (42 :: nat))) 5 0 =
      (Fulfilled 42, 5, failed_rounds 0 1000 4 @ [Invoked])"
    using withRetry_five_attempts
      [of 4 "\<lambda>j. if j < 4 then Inl j else Inr (42 :: nat)" 0 42 0]
    by simp
  have b: "withRetry (scripted (\<lambda>j. (Inl j :: nat + nat))) 5 0 =
      (Rejected 4, 5, failed_rounds 0 1000 4 @ [Invoked])"
    using withRetry_five_attempts [of 0 "\<lambda>j. (Inl j :: nat + nat)" 0 0 4]
    by simp
  from a b four show ?thesis by simp
qed

section \<open>Properties of the Generation Client\<close>

lemma includes_str_iff: "includes_str s sub \<longleftrightarrow> (\<exists>pre post. s = pre @ sub @ post)"
proof (induction s)
  case Nil
  show ?case by auto
next
  case (Cons c cs)
  have pre: "take (length sub) (c # cs) = sub \<longleftrightarrow> (\<exists>post. c # cs = sub @ post)"
    by (metis append_eq_conv_conj append_take_drop_id)
  show ?case
  proof
    assume "includes_str (c # cs) sub"
    then consider "take (length sub) (c # cs) = sub" | "includes_str cs sub" by auto
    then show "\<exists>pre post. c # cs = pre @ sub @ post"
    proof cases
      case 1
      with pre obtain post where "c # cs = [] @ sub @ post" by auto
      then show ?thesis by blast
    next
      case 2
      with Cons.IH obtain pre post where "cs = pre @ sub @ post" by auto
      then have "c # cs = (c # pre) @ sub @ post" by simp
      then show ?thesis by blast
    qed
  next
    assume "\<exists>pre post. c # cs = pre @ sub @ post"
    then obtain pre post where e: "c # cs = pre @ sub @ post" by auto
    show "includes_str (c # cs) sub"
    proof (cases pre)
      case Nil
      with e have "\<exists>post. c # cs = sub @ post" by auto
      with pre have "take (length sub) (c # cs) = sub" by blast
      then show ?thesis by simp
    next
      case (Cons a pre')
      with e have "cs = pre' @ sub @ post" by simp
      with Cons.IH show ?thesis by auto
    qed
  qed
qed

lemma lab_marker: "includes_str lab_systemPrompt ''single JSON object''"
  unfolding lab_systemPrompt_def by code_simp

lemma course_marker: "\<not> includes_str course_systemPrompt ''single JSON object''"
  unfolding course_systemPrompt_def by code_simp

lemma callGeminiApi_outcome:
  "callGeminiApi P net sp uq isJson w =
     (outcome_of P isJson (net (fetched w)),
      w\<lparr>fetched := Suc (fetched w), sent := sent w @ [build_payload sp uq isJson]\<rparr>)"
  by (simp add: callGeminiApi_def outcome_of_def Let_def split: fetch_result.splits option.splits)

text \<open>
  Claim C6. Every call with structured output requested sends one request, whose
  generation configuration declares a response schema. When the system prompt contains the
  text \<^verbatim>\<open>single JSON object\<close>, the schema is the single object with the three fields of
  a lab (\<^verbatim>\<open>problemStatement\<close>, \<^verbatim>\<open>steps\<close>, \<^verbatim>\<open>expectedOutcome\<close>); otherwise it is an array
  of objects with the ten fields that cover modules, topics, MCQs and labs.
\<close>

theorem schema_selection:
  "\<exists>p sch.
     sent (snd (callGeminiApi JSON_parse net systemPrompt userQuery True w)) = sent w @ [p]
     \<and> generationConfig p =
         Some \<lparr>responseMimeType = ''application/json'', responseSchema = sch\<rparr>
     \<and> ((\<exists>pre post. systemPrompt = pre @ ''single JSON object'' @ post) \<longrightarrow>
           sch = OBJECT [(''problemStatement'', STRING), (''steps'', ARRAY STRING),
                         (''expectedOutcome'', STRING)])
     \<and> (\<not> (\<exists>pre post. systemPrompt = pre @ ''single JSON object'' @ post) \<longrightarrow>
           sch = ARRAY (OBJECT
                  [(''title'', STRING), (''objective'', STRING), (''topic_title'', STRING),
                   (''content_draft'', STRING), (''question'', STRING),
                   (''options'', ARRAY STRING), (''correct_answer_index'', NUMBER),
                   (''problemStatement'', STRING), (''steps'', ARRAY STRING),
                   (''expectedOutcome'', STRING)]))"
proof (cases "includes_str systemPrompt ''single JSON object''")
  case True
  then have "\<exists>pre post. systemPrompt = pre @ ''single JSON object'' @ post"
    by (simp only: includes_str_iff)
  with True show ?thesis
    by (simp add: callGeminiApi_outcome build_payload_def lab_schema_def)
next
  case False
  then have "\<not> (\<exists>pre post. systemPrompt = pre @ ''single JSON object'' @ post)"
    using includes_str_iff by blast
  with False show ?thesis
    by (simp add: callGeminiApi_outcome build_payload_def array_schema_def)
qed

text \<open>The prompt of the lab workflow contains the marker and the prompt of the course
  workflow does not; a call with each declares the array schema, then the object schema.\<close>

theorem schema_selection_witness:
  "(\<exists>pre post. lab_systemPrompt = pre @ ''single JSON object'' @ post)
   \<and> \<not> (\<exists>pre post. course_systemPrompt = pre @ ''single JSON object'' @ post)
   \<and> map (map_option responseSchema \<circ> generationConfig)
        (sent (snd (callGeminiApi sample_JSON_parse (answers []) lab_systemPrompt [] True
           (snd (callGeminiApi sample_JSON_parse (answers []) course_systemPrompt [] True
              initial_world))))) =
       [Some (ARRAY (OBJECT
                  [(''title'', STRING), (''objective'', STRING), (''topic_title'', STRING),
                   (''content_draft'', STRING), (''question'', STRING),
                   (''options'', ARRAY STRING), (''correct_answer_index'', NUMBER),
                   (''problemStatement'', STRING), (''steps'', ARRAY STRING),
                   (''expectedOutcome'', STRING)])),
        Some (OBJECT [(''problemStatement'', STRING), (''steps'', ARRAY STRING),
                         (''expectedOutcome'', STRING)])]"
proof -
  have l: "\<exists>pre post. lab_systemPrompt = pre @ ''single JSON object'' @ post"
    using lab_marker by (simp only: includes_str_iff)
  have c: "\<not> (\<exists>pre post. course_systemPrompt = pre @ ''single JSON object'' @ post)"
    using course_marker includes_str_iff by blast
  define w1 where "w1 = snd (callGeminiApi sample_JSON_parse (answers []) course_systemPrompt [] True
              initial_world)"
  have s0: "sent initial_world = []" by (simp add: initial_world_def)
  from schema_selection [of sample_JSON_parse "answers []" course_systemPrompt "[]" initial_world] c s0
  obtain p1 where p1: "sent w1 = [p1]" "(map_option responseSchema \<circ> generationConfig) p1 = Some (ARRAY (OBJECT
                  [(''title'', STRING), (''objective'', STRING), (''topic_title'', STRING),
                   (''content_draft'', STRING), (''question'', STRING),
                   (''options'', ARRAY STRING), (''correct_answer_index'', NUMBER),
                   (''problemStatement'', STRING), (''steps'', ARRAY STRING),
                   (''expectedOutcome'', STRING)]))"
    unfolding w1_def by auto
  from schema_selection [of sample_JSON_parse "answers []" lab_systemPrompt "[]" w1] l p1(1)
  obtain p2 where p2: "sent (snd (callGeminiApi sample_JSON_parse (answers []) lab_systemPrompt [] True w1)) = [p1, p2]"
     "(map_option responseSchema \<circ> generationConfig) p2 = Some (OBJECT [(''problemStatement'', STRING), (''steps'', ARRAY STRING),
                         (''expectedOutcome'', STRING)])"
    by auto
  from l c p1 p2 show ?thesis unfolding w1_def by simp
qed









section \<open>Generation requests under the Resilient Caller\<close>

lemma state_before_call:
  "state_before (callGeminiApi P net sp uq isJson) w j =
     w\<lparr>fetched := fetched w + j,
       sent := sent w @ replicate j (build_payload sp uq isJson)\<rparr>"
proof (induction j arbitrary: w)
  case 0
  show ?case by simp
next
  case (Suc j)
  let ?call = "callGeminiApi P net sp uq isJson"
  have step: "snd (?call w) =
      w\<lparr>fetched := Suc (fetched w), sent := sent w @ [build_payload sp uq isJson]\<rparr>"
    by (simp add: callGeminiApi_outcome)
  have "state_before ?call w (Suc j) = state_before ?call (snd (?call w)) j"
    by simp
  also have "\<dots> = (snd (?call w))\<lparr>fetched := fetched (snd (?call w)) + j,
       sent := sent (snd (?call w)) @ replicate j (build_payload sp uq isJson)\<rparr>"
    by (rule Suc)
  also have "\<dots> = w\<lparr>fetched := fetched w + Suc j,
       sent := sent w @ replicate (Suc j) (build_payload sp uq isJson)\<rparr>"
    by (simp add: step)
  finally show ?case .
qed

lemma generation_request_fails_then_succeeds:
  assumes "k \<le> 4"
    and "\<forall>j<k. isl (outcome_of P True (net (fetched w + j)))"
    and "outcome_of P True (net (fetched w + k)) = Inr v"
  shows "generation_request P net sp uq w =
           (Fulfilled v,
            w\<lparr>fetched := fetched w + k + 1,
              sent := sent w @ replicate (Suc k) (build_payload sp uq True),
              log := log w @ failed_rounds 0 1000 k @ [Invoked],
              settlements := settlements w @ [Fulfilled v]\<rparr>)"
proof -
  let ?call = "callGeminiApi P net sp uq True"
  have "withRetry_loop ?call 5 0 1000 w [] =
          (Fulfilled v, snd (?call (state_before ?call w k)), [] @ failed_rounds 0 1000 k @ [Invoked])"
    by (rule withRetry_loop_fails_then_succeeds)
       (use assms in \<open>simp_all add: state_before_call callGeminiApi_outcome\<close>)
  then show ?thesis
    by (simp add: generation_request_def withRetry_default_def withRetry_def
        state_before_call callGeminiApi_outcome replicate_append_same)
qed

lemma generation_request_exhausted:
  assumes "\<forall>j<4. isl (outcome_of P True (net (fetched w + j)))"
    and "outcome_of P True (net (fetched w + 4)) = Inl e"
  shows "generation_request P net sp uq w =
           (Rejected e,
            w\<lparr>fetched := fetched w + 5,
              sent := sent w @ replicate (Suc 4) (build_payload sp uq True),
              log := log w @ failed_rounds 0 1000 4 @ [Invoked],
              settlements := settlements w @ [Rejected e]\<rparr>)"
proof -
  let ?call = "callGeminiApi P net sp uq True"
  have "withRetry_loop ?call 5 0 1000 w [] =
          (Rejected e, snd (?call (state_before ?call w 4)), [] @ failed_rounds 0 1000 4 @ [Invoked])"
    by (rule withRetry_loop_exhausted)
       (use assms in \<open>simp_all add: state_before_call callGeminiApi_outcome\<close>)
  moreover have "replicate 5 (build_payload sp uq True) =
      build_payload sp uq True # replicate 4 (build_payload sp uq True)"
  proof -
    have "(5 :: nat) = Suc 4" by simp
    then show ?thesis by (simp only: replicate_Suc)
  qed
  ultimately show ?thesis
    by (simp add: generation_request_def withRetry_default_def withRetry_def
        state_before_call callGeminiApi_outcome replicate_append_same)
qed

text \<open>
  Claim C3, as the code has it. The Resilient Caller catches whatever the call throws, so a
  generation request retries after every failed call, of whatever kind (a rejected
  \<^verbatim>\<open>fetch\<close>, a non-2xx status, EmptyResponse, MalformedJson). When the calls for the
  requests \<open>n, \<dots>, n + k - 1\<close> fail (\<open>k \<le> 4\<close>) and the call for request \<open>n + k\<close>
  returns a value, the workflow receives that value, after \<open>k + 1\<close> requests and the first
  \<open>k\<close> of the sleeps 1000, 2000, 4000, 8000. Only when five calls in a row fail is a failure
  surfaced to the workflow: the one of the fifth call.
\<close>

theorem every_failure_is_retried:
  "(k \<le> 4 \<and> (\<forall>j<k. isl (outcome_of JSON_parse True (net (fetched w + j))))
      \<and> outcome_of JSON_parse True (net (fetched w + k)) = Inr v \<longrightarrow>
        (\<exists>w'. generation_request JSON_parse net systemPrompt userQuery w = (Fulfilled v, w')
             \<and> fetched w' = fetched w + k + 1
             \<and> sleeps (drop (length (log w)) (log w')) = take k [1000, 2000, 4000, 8000]))
   \<and> ((\<forall>j<4. isl (outcome_of JSON_parse True (net (fetched w + j))))
      \<and> outcome_of JSON_parse True (net (fetched w + 4)) = Inl e \<longrightarrow>
        (\<exists>w'. generation_request JSON_parse net systemPrompt userQuery w = (Rejected e, w')
             \<and> fetched w' = fetched w + 5
             \<and> sleeps (drop (length (log w)) (log w')) = [1000, 2000, 4000, 8000]))"
proof (intro conjI impI)
  assume h: "k \<le> 4 \<and> (\<forall>j<k. isl (outcome_of JSON_parse True (net (fetched w + j))))
      \<and> outcome_of JSON_parse True (net (fetched w + k)) = Inr v"
  then have "generation_request JSON_parse net systemPrompt userQuery w =
           (Fulfilled v,
            w\<lparr>fetched := fetched w + k + 1,
              sent := sent w @ replicate (Suc k) (build_payload systemPrompt userQuery True),
              log := log w @ failed_rounds 0 1000 k @ [Invoked],
              settlements := settlements w @ [Fulfilled v]\<rparr>)"
    by (intro generation_request_fails_then_succeeds) auto
  moreover have "sleeps (failed_rounds 0 1000 k @ [Invoked]) = take k [1000, 2000, 4000, 8000]"
    using h by (simp add: sleeps_append sleeps_failed_rounds take_delays)
  ultimately show "\<exists>w'. generation_request JSON_parse net systemPrompt userQuery w = (Fulfilled v, w')
             \<and> fetched w' = fetched w + k + 1
             \<and> sleeps (drop (length (log w)) (log w')) = take k [1000, 2000, 4000, 8000]"
    by simp
next
  assume h: "(\<forall>j<4. isl (outcome_of JSON_parse True (net (fetched w + j))))
      \<and> outcome_of JSON_parse True (net (fetched w + 4)) = Inl e"
  then have "generation_request JSON_parse net systemPrompt userQuery w =
           (Rejected e,
            w\<lparr>fetched := fetched w + 5,
              sent := sent w @ replicate (Suc 4) (build_payload systemPrompt userQuery True),
              log := log w @ failed_rounds 0 1000 4 @ [Invoked],
              settlements := settlements w @ [Rejected e]\<rparr>)"
    by (intro generation_request_exhausted) auto
  moreover have "sleeps (failed_rounds 0 1000 4 @ [Invoked]) = [1000, 2000, 4000, 8000]"
    using take_delays [of 4]
    by (simp only: sleeps_append sleeps_failed_rounds) simp
  ultimately show "\<exists>w'. generation_request JSON_parse net systemPrompt userQuery w = (Rejected e, w')
             \<and> fetched w' = fetched w + 5
             \<and> sleeps (drop (length (log w)) (log w')) = [1000, 2000, 4000, 8000]"
    by simp
qed

lemma flaky_outcomes:
  "outcome_of sample_JSON_parse True (flaky_service 0) = Inl EmptyResponse"
  "outcome_of sample_JSON_parse True (flaky_service (Suc 0)) = Inl (MalformedJson ''oops'')"
  "outcome_of sample_JSON_parse True (flaky_service 2) =
     Inr (JArr [JObj [(''question'', JStr ''q''),
                     (''options'', JArr [JStr ''a'', JStr ''b'', JStr ''c'', JStr ''d'']),
                     (''correct_answer_index'', JNum (Fin 2))]])"
  by code_simp+

lemma offline_outcome:
  "outcome_of P True (answers [] n) = Inl (FetchRejected ''Failed to fetch'')"
  by (simp add: answers_def outcome_of_def)

text \<open>Both cases at concrete services: the flaky service, whose third answer is the first
  good one, and a service that is never reachable.\<close>

theorem every_failure_is_retried_witness:
  "fst (generation_request sample_JSON_parse flaky_service mcq_systemPrompt
          (asset_userQuery sample_topic) initial_world) =
     Fulfilled (JArr [JObj [(''question'', JStr ''q''),
                     (''options'', JArr [JStr ''a'', JStr ''b'', JStr ''c'', JStr ''d'']),
                     (''correct_answer_index'', JNum (Fin 2))]])
   \<and> fetched (snd (generation_request sample_JSON_parse flaky_service mcq_systemPrompt
          (asset_userQuery sample_topic) initial_world)) = 3
   \<and> sleeps (log (snd (generation_request sample_JSON_parse flaky_service mcq_systemPrompt
          (asset_userQuery sample_topic) initial_world))) = [1000, 2000]
   \<and> fst (generation_request sample_JSON_parse (answers []) mcq_systemPrompt
          (asset_userQuery sample_topic) initial_world) =
     Rejected (FetchRejected ''Failed to fetch'')
   \<and> fetched (snd (generation_request sample_JSON_parse (answers []) mcq_systemPrompt
          (asset_userQuery sample_topic) initial_world)) = 5
   \<and> sleeps (log (snd (generation_request sample_JSON_parse (answers []) mcq_systemPrompt
          (asset_userQuery sample_topic) initial_world))) = [1000, 2000, 4000, 8000]"
proof -
  have w0: "fetched initial_world = 0" "log initial_world = []"
    by (simp_all add: initial_world_def)
  have two: "\<forall>j<2. isl (outcome_of sample_JSON_parse True (flaky_service (fetched initial_world + j)))"
  proof (intro allI impI)
    fix j :: nat
    assume "j < 2"
    then consider "j = 0" | "j = 1" by linarith
    then show "isl (outcome_of sample_JSON_parse True (flaky_service (fetched initial_world + j)))"
      by cases (simp_all add: w0 flaky_outcomes)
  qed
  have third: "outcome_of sample_JSON_parse True (flaky_service (fetched initial_world + 2)) =
      Inr (JArr [JObj [(''question'', JStr ''q''),
                     (''options'', JArr [JStr ''a'', JStr ''b'', JStr ''c'', JStr ''d'']),
                     (''correct_answer_index'', JNum (Fin 2))]])"
    by (simp only: w0 flaky_outcomes add_0)
  have le: "(2 :: nat) \<le> 4" by simp
  from every_failure_is_retried [where k = 2 and JSON_parse = sample_JSON_parse
        and net = flaky_service and w = initial_world and systemPrompt = mcq_systemPrompt
        and userQuery = "asset_userQuery sample_topic"
        and v = "JArr [JObj [(''question'', JStr ''q''),
                     (''options'', JArr [JStr ''a'', JStr ''b'', JStr ''c'', JStr ''d'']),
                     (''correct_answer_index'', JNum (Fin 2))]]"] le two third
  have "\<exists>w'. generation_request sample_JSON_parse flaky_service mcq_systemPrompt
          (asset_userQuery sample_topic) initial_world =
        (Fulfilled (JArr [JObj [(''question'', JStr ''q''),
                     (''options'', JArr [JStr ''a'', JStr ''b'', JStr ''c'', JStr ''d'']),
                     (''correct_answer_index'', JNum (Fin 2))]]), w')
      \<and> fetched w' = fetched initial_world + 2 + 1
      \<and> sleeps (drop (length (log initial_world)) (log w')) = take 2 [1000, 2000, 4000, 8000]"
    by blast
  then have A: "fst (generation_request sample_JSON_parse flaky_service mcq_systemPrompt
          (asset_userQuery sample_topic) initial_world) =
     Fulfilled (JArr [JObj [(''question'', JStr ''q''),
                     (''options'', JArr [JStr ''a'', JStr ''b'', JStr ''c'', JStr ''d'']),
                     (''correct_answer_index'', JNum (Fin 2))]])
   \<and> fetched (snd (generation_request sample_JSON_parse flaky_service mcq_systemPrompt
          (asset_userQuery sample_topic) initial_world)) = 3
   \<and> sleeps (log (snd (generation_request sample_JSON_parse flaky_service mcq_systemPrompt
          (asset_userQuery sample_topic) initial_world))) = [1000, 2000]"
    by (auto simp: w0)
  have four: "\<forall>j<4. isl (outcome_of sample_JSON_parse True
                   (answers [] (fetched initial_world + j)))"
    by (simp add: offline_outcome)
  have fifth: "outcome_of sample_JSON_parse True (answers [] (fetched initial_world + 4)) =
      Inl (FetchRejected ''Failed to fetch'')"
    by (simp add: offline_outcome)
  from every_failure_is_retried [where JSON_parse = sample_JSON_parse
        and net = "answers []" and w = initial_world and systemPrompt = mcq_systemPrompt
        and userQuery = "asset_userQuery sample_topic"
        and e = "FetchRejected ''Failed to fetch''"] four fifth
  have "\<exists>w'. generation_request sample_JSON_parse (answers []) mcq_systemPrompt
          (asset_userQuery sample_topic) initial_world =
        (Rejected (FetchRejected ''Failed to fetch''), w')
      \<and> fetched w' = fetched initial_world + 5
      \<and> sleeps (drop (length (log initial_world)) (log w')) = [1000, 2000, 4000, 8000]"
    by blast
  then have B: "fst (generation_request sample_JSON_parse (answers []) mcq_systemPrompt
          (asset_userQuery sample_topic) initial_world) =
     Rejected (FetchRejected ''Failed to fetch'')
   \<and> fetched (snd (generation_request sample_JSON_parse (answers []) mcq_systemPrompt
          (asset_userQuery sample_topic) initial_world)) = 5
   \<and> sleeps (log (snd (generation_request sample_JSON_parse (answers []) mcq_systemPrompt
          (asset_userQuery sample_topic) initial_world))) = [1000, 2000, 4000, 8000]"
    by (auto simp: w0)
  from A B show ?thesis by blast
qed

text \<open>
  Where the code departs from C3 as stated. The first call to the flaky service fails with
  EmptyResponse and the second with MalformedJson; neither failure reaches the workflow.
  The Resilient Caller sleeps 1000 and 2000 and calls again, and the workflow receives the
  value of the third call.
\<close>

theorem empty_and_malformed_are_retried:
  "outcome_of sample_JSON_parse True (flaky_service 0) = Inl EmptyResponse
   \<and> outcome_of sample_JSON_parse True (flaky_service (Suc 0)) = Inl (MalformedJson ''oops'')
   \<and> fst (generation_request sample_JSON_parse flaky_service mcq_systemPrompt
          (asset_userQuery sample_topic) initial_world) =
     Fulfilled (JArr [JObj [(''question'', JStr ''q''),
                     (''options'', JArr [JStr ''a'', JStr ''b'', JStr ''c'', JStr ''d'']),
                     (''correct_answer_index'', JNum (Fin 2))]])
   \<and> fetched (snd (generation_request sample_JSON_parse flaky_service mcq_systemPrompt
          (asset_userQuery sample_topic) initial_world)) = 3
   \<and> sleeps (log (snd (generation_request sample_JSON_parse flaky_service mcq_systemPrompt
          (asset_userQuery sample_topic) initial_world))) = [1000, 2000]"
proof -
  have w0: "fetched initial_world = 0" "log initial_world = []"
    by (simp_all add: initial_world_def)
  have two: "\<forall>j<2. isl (outcome_of sample_JSON_parse True (flaky_service (fetched initial_world + j)))"
  proof (intro allI impI)
    fix j :: nat
    assume "j < 2"
    then consider "j = 0" | "j = 1" by linarith
    then show "isl (outcome_of sample_JSON_parse True (flaky_service (fetched initial_world + j)))"
      by cases (simp_all add: w0 flaky_outcomes)
  qed
  have third: "outcome_of sample_JSON_parse True (flaky_service (fetched initial_world + 2)) =
      Inr (JArr [JObj [(''question'', JStr ''q''),
                     (''options'', JArr [JStr ''a'', JStr ''b'', JStr ''c'', JStr ''d'']),
                     (''correct_answer_index'', JNum (Fin 2))]])"
    by (simp only: w0 flaky_outcomes add_0)
  have le: "(2 :: nat) \<le> 4" by simp
  have sl: "sleeps (failed_rounds 0 1000 2 @ [Invoked]) = [1000, 2000]"
    using take_delays [of 2]
    by (simp only: sleeps_append sleeps_failed_rounds) simp
  have run: "generation_request sample_JSON_parse flaky_service mcq_systemPrompt
          (asset_userQuery sample_topic) initial_world =
        (Fulfilled (JArr [JObj [(''question'', JStr ''q''),
                     (''options'', JArr [JStr ''a'', JStr ''b'', JStr ''c'', JStr ''d'']),
                     (''correct_answer_index'', JNum (Fin 2))]]),
         initial_world\<lparr>fetched := fetched initial_world + 2 + 1,
              sent := sent initial_world @
                replicate (Suc 2) (build_payload mcq_systemPrompt (asset_userQuery sample_topic) True),
              log := log initial_world @ failed_rounds 0 1000 2 @ [Invoked],
              settlements := settlements initial_world @
                [Fulfilled (JArr [JObj [(''question'', JStr ''q''),
                     (''options'', JArr [JStr ''a'', JStr ''b'', JStr ''c'', JStr ''d'']),
                     (''correct_answer_index'', JNum (Fin 2))]])]\<rparr>)"
    using le two third by (rule generation_request_fails_then_succeeds)
  show ?thesis
    by (simp add: run flaky_outcomes w0 sl)
qed

section \<open>Properties of generate-assessment\<close>


lemma get_prop_value:
  "get_prop v k = Inr x \<longleftrightarrow> v \<noteq> JNull \<and> v \<noteq> JUndefined \<and> x = opt_prop v k"
  by (cases v) auto


lemma enumerate_Cons_shift:
  "map (\<lambda>(i, m). f i m) (List.enumerate n (x # xs)) = f n x # map (\<lambda>(i, m). f i m) (List.enumerate (Suc n) xs)"
  by simp




lemma withRetry_loop_preserves:
  "(\<forall>s. f (snd (fn s)) = f s) \<Longrightarrow>
     f (fst (snd (withRetry_loop fn maxRetries i d s tr))) = f s"
proof (induction fn maxRetries i d s tr rule: withRetry_loop.induct)
  case (1 fn maxRetries i delay s tr)
  note pres = \<open>\<forall>s. f (snd (fn s)) = f s\<close>
  show ?case
  proof (cases "i < maxRetries")
    case False
    then show ?thesis by (subst withRetry_loop.simps) simp
  next
    case True
    obtain r s' where fs: "fn s = (r, s')" by (cases "fn s")
    have keep: "f s' = f s" using pres fs by (metis snd_conv)
    show ?thesis
    proof (cases r)
      case (Inr v)
      with True fs keep show ?thesis by (subst withRetry_loop.simps) simp
    next
      case (Inl e)
      show ?thesis
      proof (cases "i = maxRetries - 1")
        case True
        with \<open>i < maxRetries\<close> fs Inl keep show ?thesis by (subst withRetry_loop.simps) simp
      next
        case False
        have "f (fst (snd (withRetry_loop fn maxRetries (i + 1) (delay * 2) s'
                    (tr @ [Invoked, Warned (i + 1) delay, Slept delay])))) = f s'"
          using "1.IH" [OF \<open>i < maxRetries\<close> fs [symmetric] _ False pres] Inl by simp
        with \<open>i < maxRetries\<close> fs Inl keep False show ?thesis
          by (subst withRetry_loop.simps) simp
      qed
    qed
  qed
qed

lemma generation_request_store:
  assumes "generation_request P net sp uq w = (r, w')"
  shows "assets_col w' = assets_col w" "next_id w' = next_id w" "courses_col w' = courses_col w"
    "modules_col w' = modules_col w" "topics_col w' = topics_col w"
proof -
  let ?call = "callGeminiApi P net sp uq True"
  obtain r0 w0 tr where run: "withRetry_loop ?call 5 0 1000 w [] = (r0, w0, tr)"
    by (cases "withRetry_loop ?call 5 0 1000 w []") auto
  have w': "w' = w0\<lparr>log := log w0 @ tr, settlements := settlements w0 @ [r0]\<rparr>"
    using assms run by (auto simp: generation_request_def withRetry_default_def withRetry_def)
  have a: "assets_col w0 = assets_col w"
    using withRetry_loop_preserves [of assets_col ?call 5 0 1000 w "[]"] run
    by (simp add: callGeminiApi_outcome)
  have b: "next_id w0 = next_id w"
    using withRetry_loop_preserves [of next_id ?call 5 0 1000 w "[]"] run
    by (simp add: callGeminiApi_outcome)
  have c: "courses_col w0 = courses_col w"
    using withRetry_loop_preserves [of courses_col ?call 5 0 1000 w "[]"] run
    by (simp add: callGeminiApi_outcome)
  have d: "modules_col w0 = modules_col w"
    using withRetry_loop_preserves [of modules_col ?call 5 0 1000 w "[]"] run
    by (simp add: callGeminiApi_outcome)
  have e: "topics_col w0 = topics_col w"
    using withRetry_loop_preserves [of topics_col ?call 5 0 1000 w "[]"] run
    by (simp add: callGeminiApi_outcome)
  from w' a b c d e show "assets_col w' = assets_col w" "next_id w' = next_id w"
    "courses_col w' = courses_col w" "modules_col w' = modules_col w" "topics_col w' = topics_col w"
    by simp_all
qed





lemma generation_request_first_try:
  assumes "outcome_of P True (net (fetched w)) = Inr v"
  shows "generation_request P net sp uq w =
           (Fulfilled v,
            w\<lparr>fetched := Suc (fetched w),
              sent := sent w @ [build_payload sp uq True],
              log := log w @ [Invoked],
              settlements := settlements w @ [Fulfilled v]\<rparr>)"
  using generation_request_fails_then_succeeds [of 0 P net w v sp uq] assms
  by simp


lemma sample_outcomes:
  "outcome_of sample_JSON_parse True (Responds \<lparr>status = 200, body = answer_body sample_mcq_text\<rparr>) =
     Inr (JArr [JObj [(''question'', JStr ''q''),
                     (''options'', JArr [JStr ''a'', JStr ''b'', JStr ''c'', JStr ''d'']),
                     (''correct_answer_index'', JNum (Fin 2))]])"
  "outcome_of sample_JSON_parse True (Responds \<lparr>status = 200, body = answer_body ''[null]''\<rparr>) =
     Inr (JArr [JNull])"
  "outcome_of sample_JSON_parse True (Responds \<lparr>status = 200, body = answer_body ''[{},{}]''\<rparr>) =
     Inr (JArr [JObj [], JObj []])"
  "outcome_of sample_JSON_parse True (Responds \<lparr>status = 200, body = answer_body sample_lab_text\<rparr>) =
     Inr (JObj [(''problemStatement'', JStr ''p''), (''steps'', JArr [JStr ''s'']),
               (''expectedOutcome'', JStr ''o'')])"
  by code_simp+


lemma topic_open_simps:
  "db topic_open" "userId topic_open = Some ''u1''" "activeTopic topic_open = Some sample_topic"
  "mcqs topic_open = []" "lab topic_open = None" "error topic_open = None"
  by (simp_all add: topic_open_def ready_state_def)

lemma initial_world_simps:
  "fetched initial_world = 0" "next_id initial_world = 0" "assets_col initial_world = []"
  "log initial_world = []" "courses_col initial_world = []" "modules_col initial_world = []"
  "topics_col initial_world = []" "settlements initial_world = []" "sent initial_world = []"
  by (simp_all add: initial_world_def)







section \<open>Properties of generate-lab\<close>

lemma generateLab_try_cases:
  assumes "generateLab_try P net tp st w = (thrown, w')"
  shows "(thrown \<noteq> None \<and> assets_col w' = assets_col w)
       \<or> (\<exists>g. thrown = None \<and> userId st \<noteq> None
             \<and> assets_col w' =
                 (case lab st of None \<Rightarrow> assets_col w
                  | Some l \<Rightarrow> filter (\<lambda>d. a_id d \<noteq> a_id l) (assets_col w))
                 @ [lab_asset tp (next_id w) g])"
proof -
  obtain r w1 where gen: "generation_request P net lab_systemPrompt (asset_userQuery tp) w = (r, w1)"
    by (cases "generation_request P net lab_systemPrompt (asset_userQuery tp) w")
  note keep = generation_request_store(1,2) [OF gen]
  show ?thesis
  proof (cases "awaited r")
    case (Inl e)
    with assms gen keep show ?thesis
      by (auto simp: generateLab_try_def)
  next
    case (Inr g)
    show ?thesis
    proof (cases "\<not> truthy g \<or> \<not> truthy (opt_prop g ''problemStatement'')")
      case True
      with assms gen keep Inr show ?thesis
        by (auto simp: generateLab_try_def)
    next
      case False
      show ?thesis
      proof (cases "userId st")
        case None
        with assms gen keep Inr False show ?thesis
          by (auto simp: generateLab_try_def)
      next
        case (Some uid)
        with assms gen keep Inr False
        have "thrown = None \<and> assets_col w' =
                 (case lab st of None \<Rightarrow> assets_col w
                  | Some l \<Rightarrow> filter (\<lambda>d. a_id d \<noteq> a_id l) (assets_col w))
                 @ [lab_asset tp (next_id w) g]"
          by (auto simp: generateLab_try_def addDoc_asset_def deleteDoc_asset_def lab_asset_def
              Let_def split: option.splits)
        with Some show ?thesis by auto
      qed
    qed
  qed
qed

lemma handleGenerateLab_cases:
  assumes "handleGenerateLab P net (st, w) = (st', w')"
  shows "assets_col w' = assets_col w
       \<or> (\<exists>tp g. db st \<and> activeTopic st = Some tp \<and> userId st \<noteq> None \<and> error st' = None
             \<and> assets_col w' =
                 (case lab st of None \<Rightarrow> assets_col w
                  | Some l \<Rightarrow> filter (\<lambda>d. a_id d \<noteq> a_id l) (assets_col w))
                 @ [lab_asset tp (next_id w) g])"
proof (cases "activeTopic st")
  case None
  with assms show ?thesis by (simp add: handleGenerateLab_def)
next
  case (Some tp)
  show ?thesis
  proof (cases "db st")
    case False
    with assms Some show ?thesis by (simp add: handleGenerateLab_def)
  next
    case True
    let ?st1 = "st\<lparr>isLoading := True, error := None\<rparr>"
    obtain thrown w2 where t: "generateLab_try P net tp ?st1 w = (thrown, w2)"
      by (cases "generateLab_try P net tp ?st1 w")
    from assms Some True t have w': "w' = w2"
      by (auto simp: handleGenerateLab_def Let_def split: option.splits)
    from generateLab_try_cases [OF t] show ?thesis
    proof
      assume "thrown \<noteq> None \<and> assets_col w2 = assets_col w"
      with w' show ?thesis by simp
    next
      assume "\<exists>g. thrown = None \<and> userId ?st1 \<noteq> None
             \<and> assets_col w2 =
                 (case lab ?st1 of None \<Rightarrow> assets_col w
                  | Some l \<Rightarrow> filter (\<lambda>d. a_id d \<noteq> a_id l) (assets_col w))
                 @ [lab_asset tp (next_id w) g]"
      then obtain g where g: "thrown = None" "userId st \<noteq> None"
         "assets_col w2 =
                 (case lab st of None \<Rightarrow> assets_col w
                  | Some l \<Rightarrow> filter (\<lambda>d. a_id d \<noteq> a_id l) (assets_col w))
                 @ [lab_asset tp (next_id w) g]"
        by auto
      from assms Some True t g(1) have "error st' = None"
        by (auto simp: handleGenerateLab_def Let_def catch_finally_def)
      with g w' Some True show ?thesis by blast
    qed
  qed
qed

lemma handleGenerateLab_success:
  assumes "handleGenerateLab P net (st, w) = (st', w')" "db st" "activeTopic st = Some tp"
    "error st' = None"
  shows "userId st \<noteq> None \<and> (\<exists>g. assets_col w' =
                 (case lab st of None \<Rightarrow> assets_col w
                  | Some l \<Rightarrow> filter (\<lambda>d. a_id d \<noteq> a_id l) (assets_col w))
                 @ [lab_asset tp (next_id w) g])"
proof -
  let ?st1 = "st\<lparr>isLoading := True, error := None\<rparr>"
  obtain thrown w2 where t: "generateLab_try P net tp ?st1 w = (thrown, w2)"
    by (cases "generateLab_try P net tp ?st1 w")
  from assms t have w': "w' = w2" and th: "thrown = None"
    by (auto simp: handleGenerateLab_def Let_def catch_finally_def split: option.splits)
  from generateLab_try_cases [OF t] th w' show ?thesis by auto
qed

lemma assets_delivered_lab:
  assumes "db st" "userId st \<noteq> None" "activeTopic st = Some tp"
  shows "lab (assets_delivered st w) =
           (case labQuery (t_id tp) w of [] \<Rightarrow> None | d # _ \<Rightarrow> Some d)"
  using assms
  by (auto simp: assets_delivered_def on_lab_snapshot_def on_mcqs_snapshot_def split: list.splits)

lemma assets_delivered_keeps:
  "db (assets_delivered st w) = db st" "userId (assets_delivered st w) = userId st"
  "activeTopic (assets_delivered st w) = activeTopic st"
  by (auto simp: assets_delivered_def on_lab_snapshot_def on_mcqs_snapshot_def
      split: list.splits option.splits)

lemma labQuery_lab_asset:
  "filter (\<lambda>a. a_topicId a = t \<and> a_type a = ''lab'') [lab_asset tp i g] =
     (if t = t_id tp then [lab_asset tp i g] else [])"
  by (simp add: lab_asset_def)

text \<open>Deleting by identifier the only lab of a topic leaves the topic without a lab.\<close>

lemma labQuery_after_delete:
  assumes "labQuery t w = [d]"
  shows "filter (\<lambda>a. a_topicId a = t \<and> a_type a = ''lab'')
           (filter (\<lambda>x. a_id x \<noteq> a_id d) (assets_col w)) = []"
proof -
  have "\<And>a. a \<in> set (assets_col w) \<Longrightarrow> a_topicId a = t \<and> a_type a = ''lab'' \<Longrightarrow> a = d"
  proof -
    fix a
    assume "a \<in> set (assets_col w)" "a_topicId a = t \<and> a_type a = ''lab''"
    then have "a \<in> set (labQuery t w)" by (simp add: labQuery_def)
    with assms show "a = d" by simp
  qed
  then show ?thesis by (auto simp: filter_empty_conv)
qed

lemma labQuery_delete_le:
  "length (filter (\<lambda>a. a_topicId a = t \<and> a_type a = ''lab'')
             (filter (\<lambda>x. a_id x \<noteq> i) (assets_col w))) \<le> length (labQuery t w)"
proof -
  have "filter (\<lambda>a. a_topicId a = t \<and> a_type a = ''lab'')
             (filter (\<lambda>x. a_id x \<noteq> i) (assets_col w)) =
        filter (\<lambda>x. a_id x \<noteq> i) (labQuery t w)"
    by (auto simp: labQuery_def intro: filter_cong)
  then show ?thesis by simp
qed

lemma lab_step:
  assumes inv: "length (labQuery t w) \<le> 1"
    and run: "handleGenerateLab P net (assets_delivered st w, w) = (st', w')"
  shows "length (labQuery t w') \<le> 1"
proof -
  let ?st = "assets_delivered st w"
  from handleGenerateLab_cases [OF run] show ?thesis
  proof
    assume "assets_col w' = assets_col w"
    with inv show ?thesis by (simp add: labQuery_def)
  next
    assume "\<exists>tp g. db ?st \<and> activeTopic ?st = Some tp \<and> userId ?st \<noteq> None \<and> error st' = None
             \<and> assets_col w' =
                 (case lab ?st of None \<Rightarrow> assets_col w
                  | Some l \<Rightarrow> filter (\<lambda>d. a_id d \<noteq> a_id l) (assets_col w))
                 @ [lab_asset tp (next_id w) g]"
    then obtain tp g where h: "db st" "activeTopic st = Some tp" "userId st \<noteq> None"
      and a: "assets_col w' =
                 (case lab ?st of None \<Rightarrow> assets_col w
                  | Some l \<Rightarrow> filter (\<lambda>d. a_id d \<noteq> a_id l) (assets_col w))
                 @ [lab_asset tp (next_id w) g]"
      by (auto simp: assets_delivered_keeps)
    note l = assets_delivered_lab [OF h(1,3,2), of w]
    show ?thesis
    proof (cases "t = t_id tp")
      case True
      show ?thesis
      proof (cases "labQuery (t_id tp) w")
        case Nil
        with a l True show ?thesis
          by (simp add: labQuery_def labQuery_lab_asset)
      next
        case (Cons d ds)
        with inv True have ds: "labQuery (t_id tp) w = [d]" by simp
        from labQuery_after_delete [OF ds] a l True ds show ?thesis
          by (simp add: labQuery_def [of _ w'] lab_asset_def)
      qed
    next
      case False
      have "length (filter (\<lambda>a. a_topicId a = t \<and> a_type a = ''lab'')
               (case lab ?st of None \<Rightarrow> assets_col w
                  | Some l \<Rightarrow> filter (\<lambda>d. a_id d \<noteq> a_id l) (assets_col w)))
            \<le> length (labQuery t w)"
      proof (cases "lab ?st")
        case None
        then show ?thesis by (simp add: labQuery_def)
      next
        case (Some x)
        then show ?thesis using labQuery_delete_le [of t "a_id x" w] by simp
      qed
      with a inv False show ?thesis
        by (simp add: labQuery_def [of _ w'] lab_asset_def)
    qed
  qed
qed

lemma lab_runs_invariant:
  "length (labQuery t (snd sw)) \<le> 1 \<Longrightarrow> length (labQuery t (snd (lab_runs P net n sw))) \<le> 1"
proof (induction n arbitrary: sw)
  case 0
  then show ?case by simp
next
  case (Suc n)
  obtain st' w' where run:
    "handleGenerateLab P net (assets_delivered (fst sw) (snd sw), snd sw) = (st', w')"
    by (cases "handleGenerateLab P net (assets_delivered (fst sw) (snd sw), snd sw)")
  from lab_step [OF Suc.prems run] have "length (labQuery t (snd (st', w'))) \<le> 1" by simp
  from Suc.IH [OF this] run show ?case by simp
qed

text \<open>
  Claim C4. Start from a store that holds at most one \<^verbatim>\<open>lab\<close> asset for a topic (an empty
  store, for one). After any number of invocations of generate-lab, each made with the
  local slices reflecting the store, and whatever the service answers, the store still holds
  at most one \<^verbatim>\<open>lab\<close> asset for the topic. A run on the topic that ends without error leaves
  exactly one, the newly inserted document: the lab the topic had before, if any, has been
  deleted, and the new one comes after what remains.
\<close>

theorem at_most_one_lab:
  assumes "length (labQuery t w) \<le> 1"
  shows "length (labQuery t (snd (lab_runs JSON_parse net n (st, w)))) \<le> 1
       \<and> (\<forall>tp st' w'. db st \<and> activeTopic st = Some tp \<and> t = t_id tp
             \<and> handleGenerateLab JSON_parse net (assets_delivered st w, w) = (st', w')
             \<and> error st' = None \<longrightarrow>
             (\<exists>l. labQuery t w' = [l] \<and> a_id l = next_id w
                \<and> assets_col w' =
                    filter (\<lambda>d. a_id d \<notin> a_id ` set (labQuery t w)) (assets_col w) @ [l]))"
proof (intro conjI allI impI)
  show "length (labQuery t (snd (lab_runs JSON_parse net n (st, w)))) \<le> 1"
    using lab_runs_invariant [of t "(st, w)" JSON_parse net n] assms by simp
next
  fix tp st' w'
  assume h: "db st \<and> activeTopic st = Some tp \<and> t = t_id tp
             \<and> handleGenerateLab JSON_parse net (assets_delivered st w, w) = (st', w')
             \<and> error st' = None"
  let ?st = "assets_delivered st w"
  from h have run: "handleGenerateLab JSON_parse net (?st, w) = (st', w')" by simp
  from h have d: "db ?st" "activeTopic ?st = Some tp" "error st' = None"
    by (simp_all add: assets_delivered_keeps)
  from handleGenerateLab_success [OF run d]
  obtain g where u: "userId st \<noteq> None" and a: "assets_col w' =
                 (case lab ?st of None \<Rightarrow> assets_col w
                  | Some l \<Rightarrow> filter (\<lambda>d. a_id d \<noteq> a_id l) (assets_col w))
                 @ [lab_asset tp (next_id w) g]"
    by (auto simp: assets_delivered_keeps)
  from h u have l: "lab ?st = (case labQuery (t_id tp) w of [] \<Rightarrow> None | d # _ \<Rightarrow> Some d)"
    by (intro assets_delivered_lab) auto
  let ?l = "lab_asset tp (next_id w) g"
  have idl: "a_id ?l = next_id w" by (simp add: lab_asset_def)
  show "\<exists>l. labQuery t w' = [l] \<and> a_id l = next_id w
                \<and> assets_col w' =
                    filter (\<lambda>d. a_id d \<notin> a_id ` set (labQuery t w)) (assets_col w) @ [l]"
  proof (cases "labQuery (t_id tp) w")
    case Nil
    with a l h have "labQuery t w' = [?l]"
      by (simp add: labQuery_def lab_asset_def)
    moreover from a l h Nil
    have "assets_col w' = filter (\<lambda>d. a_id d \<notin> a_id ` set (labQuery t w)) (assets_col w) @ [?l]"
      by simp
    ultimately show ?thesis using idl by blast
  next
    case (Cons x xs)
    with assms h have one: "labQuery (t_id tp) w = [x]" by simp
    from labQuery_after_delete [OF one] a l h one
    have "labQuery t w' = [?l]"
      by (simp add: labQuery_def [of _ w'] lab_asset_def)
    moreover from a l h one
    have "assets_col w' = filter (\<lambda>d. a_id d \<notin> a_id ` set (labQuery t w)) (assets_col w) @ [?l]"
      by simp
    ultimately show ?thesis using idl by blast
  qed
qed

lemma handleGenerateLab_ok:
  assumes gen: "generation_request P net lab_systemPrompt (asset_userQuery tp) w = (Fulfilled g, w1)"
    and "truthy g" "truthy (opt_prop g ''problemStatement'')"
    and "userId st = Some uid" "db st" "activeTopic st = Some tp"
  shows "handleGenerateLab P net (st, w) =
           (st\<lparr>isLoading := False, error := None, selectedTab := ''lab''\<rparr>,
            w1\<lparr>next_id := Suc (next_id w1),
               assets_col :=
                 (case lab st of None \<Rightarrow> assets_col w1
                  | Some l \<Rightarrow> filter (\<lambda>d. a_id d \<noteq> a_id l) (assets_col w1))
                 @ [lab_asset tp (next_id w1) g]\<rparr>)"
  using assms
  by (auto simp: handleGenerateLab_def generateLab_try_def catch_finally_def Let_def
      addDoc_asset_def deleteDoc_asset_def lab_asset_def split: option.splits)

text \<open>From the empty store, with the sample topic open and a service that answers with a lab:
  the first run ends without error and leaves the lab with identifier 0, and two runs in
  a row leave at most one lab.\<close>

theorem at_most_one_lab_witness:
  "length (labQuery 7 initial_world) \<le> 1
   \<and> (let net = answers [answer_body sample_lab_text, answer_body sample_lab_text];
          r = handleGenerateLab sample_JSON_parse net
                (assets_delivered topic_open initial_world, initial_world)
      in error (fst r) = None
         \<and> (\<exists>l. labQuery 7 (snd r) = [l] \<and> a_id l = 0)
         \<and> length (labQuery 7 (snd (lab_runs sample_JSON_parse net 2
                      (topic_open, initial_world)))) \<le> 1)"
proof -
  define net where "net = answers [answer_body sample_lab_text, answer_body sample_lab_text]"
  define g where "g = JObj [(''problemStatement'', JStr ''p''), (''steps'', JArr [JStr ''s'']),
               (''expectedOutcome'', JStr ''o'')]"
  have inv: "length (labQuery 7 initial_world) \<le> 1"
    by (simp add: labQuery_def initial_world_simps)
  have net0: "net 0 = Responds \<lparr>status = 200, body = answer_body sample_lab_text\<rparr>"
    by (simp add: net_def answers_def)
  let ?st = "assets_delivered topic_open initial_world"
  have st: "db ?st" "userId ?st = Some ''u1''" "activeTopic ?st = Some sample_topic"
    by (simp_all add: assets_delivered_keeps topic_open_simps)
  obtain g1 where gen1: "generation_request sample_JSON_parse net lab_systemPrompt
      (asset_userQuery sample_topic) initial_world = (Fulfilled g, g1)"
    using generation_request_first_try [of sample_JSON_parse net initial_world g
        lab_systemPrompt "asset_userQuery sample_topic"]
    by (simp add: net0 sample_outcomes initial_world_simps g_def)
  have tr: "truthy g" "truthy (opt_prop g ''problemStatement'')"
    by (simp_all add: g_def)
  define r where "r = handleGenerateLab sample_JSON_parse net (?st, initial_world)"
  have run: "handleGenerateLab sample_JSON_parse net (?st, initial_world) = (fst r, snd r)"
    by (simp add: r_def)
  have err: "error (fst r) = None"
    using handleGenerateLab_ok [OF gen1 tr st(2,1,3)] by (simp add: r_def)
  have t7: "7 = t_id sample_topic" by (simp add: sample_topic_def)
  from at_most_one_lab [OF inv, of sample_JSON_parse net 2 topic_open]
  have many: "length (labQuery 7 (snd (lab_runs sample_JSON_parse net 2
                      (topic_open, initial_world)))) \<le> 1"
    and one: "\<forall>tp st' w'. db topic_open \<and> activeTopic topic_open = Some tp \<and> 7 = t_id tp
             \<and> handleGenerateLab sample_JSON_parse net (?st, initial_world) = (st', w')
             \<and> error st' = None \<longrightarrow>
             (\<exists>l. labQuery 7 w' = [l] \<and> a_id l = next_id initial_world
                \<and> assets_col w' =
                    filter (\<lambda>d. a_id d \<notin> a_id ` set (labQuery 7 initial_world))
                      (assets_col initial_world) @ [l])"
    by blast+
  from one topic_open_simps(1,3) t7 run err
  have "\<exists>l. labQuery 7 (snd r) = [l] \<and> a_id l = next_id initial_world"
    by blast
  then have ex: "\<exists>l. labQuery 7 (snd r) = [l] \<and> a_id l = 0"
    by (simp add: initial_world_simps)
  from inv err ex many show ?thesis
    unfolding Let_def r_def net_def by blast
qed

section \<open>Properties of the Sync Engine\<close>

lemma find_SomeD: "find P xs = Some x \<Longrightarrow> x \<in> set xs \<and> P x"
  by (induction xs) (auto split: if_splits)

lemma on_modules_snapshot_modules:
  "modules (on_modules_snapshot docs st) = sort_key m_order docs"
  by (simp add: on_modules_snapshot_def Let_def split: option.splits)

lemma on_modules_snapshot_active:
  assumes "currentView st = ''module'' \<or> currentView st = ''topic''" "activeModule st = Some am"
  shows "activeModule (on_modules_snapshot docs st) =
           (case find (\<lambda>m. m_id m = m_id am) (sort_key m_order docs) of
              None \<Rightarrow> Some am | Some m \<Rightarrow> Some m)"
  using assms by (auto simp: on_modules_snapshot_def Let_def split: option.splits)

text \<open>
  Claim C8, as the code has it. On every notification of the modules subscription the
  local slice becomes the notified documents sorted by \<^verbatim>\<open>order\<close>, ascending (the same
  documents, as many of them). When the current view is the module view or the topic view
  and a module is active, the active module becomes a notified document with the same
  identifier if there is one (the one, identifiers being unique in a snapshot), and stays
  the previous, stale object if there is none. In any other view the active module is left
  as it is.
\<close>

theorem modules_snapshot_resolves_active_module:
  "modules (on_modules_snapshot docs st) = sort_key m_order docs
   \<and> sorted (map m_order (modules (on_modules_snapshot docs st)))
   \<and> set (modules (on_modules_snapshot docs st)) = set docs
   \<and> length (modules (on_modules_snapshot docs st)) = length docs
   \<and> (\<forall>am. (currentView st = ''module'' \<or> currentView st = ''topic'')
            \<and> activeModule st = Some am \<longrightarrow>
          ((\<exists>m\<in>set docs. m_id m = m_id am) \<longrightarrow>
             (\<exists>m\<in>set docs. m_id m = m_id am
                \<and> activeModule (on_modules_snapshot docs st) = Some m))
          \<and> (\<forall>m. m \<in> set docs \<and> m_id m = m_id am
                  \<and> (\<forall>m'\<in>set docs. m_id m' = m_id am \<longrightarrow> m' = m) \<longrightarrow>
                activeModule (on_modules_snapshot docs st) = Some m)
          \<and> ((\<forall>m\<in>set docs. m_id m \<noteq> m_id am) \<longrightarrow>
                activeModule (on_modules_snapshot docs st) = Some am))
   \<and> (currentView st \<noteq> ''module'' \<and> currentView st \<noteq> ''topic'' \<longrightarrow>
         activeModule (on_modules_snapshot docs st) = activeModule st)"
proof (intro conjI allI impI)
  show "modules (on_modules_snapshot docs st) = sort_key m_order docs"
    by (rule on_modules_snapshot_modules)
  show "sorted (map m_order (modules (on_modules_snapshot docs st)))"
    by (simp add: on_modules_snapshot_modules)
  show "set (modules (on_modules_snapshot docs st)) = set docs"
    by (simp add: on_modules_snapshot_modules)
  show "length (modules (on_modules_snapshot docs st)) = length docs"
    by (simp add: on_modules_snapshot_modules)
next
  fix am
  assume h: "(currentView st = ''module'' \<or> currentView st = ''topic'') \<and> activeModule st = Some am"
  assume p: "\<exists>m\<in>set docs. m_id m = m_id am"
  then have "find (\<lambda>m. m_id m = m_id am) (sort_key m_order docs) \<noteq> None"
    by (auto simp: find_None_iff)
  then obtain m where f: "find (\<lambda>m. m_id m = m_id am) (sort_key m_order docs) = Some m"
    by auto
  from find_SomeD [OF f] have "m \<in> set docs" "m_id m = m_id am" by simp_all
  moreover from h f have "activeModule (on_modules_snapshot docs st) = Some m"
    by (simp add: on_modules_snapshot_active)
  ultimately show "\<exists>m\<in>set docs. m_id m = m_id am
                \<and> activeModule (on_modules_snapshot docs st) = Some m"
    by blast
next
  fix am m
  assume h: "(currentView st = ''module'' \<or> currentView st = ''topic'') \<and> activeModule st = Some am"
  assume u: "m \<in> set docs \<and> m_id m = m_id am
                  \<and> (\<forall>m'\<in>set docs. m_id m' = m_id am \<longrightarrow> m' = m)"
  then have "find (\<lambda>m. m_id m = m_id am) (sort_key m_order docs) \<noteq> None"
    by (auto simp: find_None_iff)
  then obtain x where f: "find (\<lambda>m. m_id m = m_id am) (sort_key m_order docs) = Some x"
    by auto
  from find_SomeD [OF f] u have "x = m" by simp
  with h f show "activeModule (on_modules_snapshot docs st) = Some m"
    by (simp add: on_modules_snapshot_active)
next
  fix am
  assume h: "(currentView st = ''module'' \<or> currentView st = ''topic'') \<and> activeModule st = Some am"
  assume "\<forall>m\<in>set docs. m_id m \<noteq> m_id am"
  then have "find (\<lambda>m. m_id m = m_id am) (sort_key m_order docs) = None"
    by (simp add: find_None_iff)
  with h show "activeModule (on_modules_snapshot docs st) = Some am"
    by (simp add: on_modules_snapshot_active)
next
  assume "currentView st \<noteq> ''module'' \<and> currentView st \<noteq> ''topic''"
  then show "activeModule (on_modules_snapshot docs st) = activeModule st"
    by (simp add: on_modules_snapshot_def Let_def)
qed

text \<open>The example of the specification: the snapshot \<^verbatim>\<open>[m2, m1]\<close> gives the slice
  \<^verbatim>\<open>[m1, m2]\<close> and the active module 1 is replaced by its new version; a snapshot without
  module 1 leaves the stale object; and so does any snapshot in the home view.\<close>

theorem modules_snapshot_resolves_active_module_witness:
  "(let st = ready_state\<lparr>currentView := ''module'', activeModule := Some module_old\<rparr>
    in modules (on_modules_snapshot [module_two, module_new] st) = [module_new, module_two]
       \<and> activeModule (on_modules_snapshot [module_two, module_new] st) = Some module_new
       \<and> activeModule (on_modules_snapshot [module_two] st) = Some module_old)
   \<and> activeModule (on_modules_snapshot [module_two, module_new]
        (ready_state\<lparr>currentView := ''home'', activeModule := Some module_old\<rparr>)) =
      Some module_old"
proof -
  define st where "st = ready_state\<lparr>currentView := ''module'', activeModule := Some module_old\<rparr>"
  define st2 where "st2 = ready_state\<lparr>currentView := ''home'', activeModule := Some module_old\<rparr>"
  have v: "(currentView st = ''module'' \<or> currentView st = ''topic'') \<and> activeModule st = Some module_old"
    by (simp add: st_def)
  have s: "sort_key m_order [module_two, module_new] = [module_new, module_two]"
    by (simp add: module_two_def module_new_def)
  have a: "modules (on_modules_snapshot [module_two, module_new] st) = [module_new, module_two]"
    using modules_snapshot_resolves_active_module [of "[module_two, module_new]" st] s by simp
  have u: "module_new \<in> set [module_two, module_new] \<and> m_id module_new = m_id module_old
       \<and> (\<forall>m'\<in>set [module_two, module_new]. m_id m' = m_id module_old \<longrightarrow> m' = module_new)"
    by (simp add: module_two_def module_new_def module_old_def)
  have b: "activeModule (on_modules_snapshot [module_two, module_new] st) = Some module_new"
    using modules_snapshot_resolves_active_module [of "[module_two, module_new]" st] v u by blast
  have n: "\<forall>m\<in>set [module_two]. m_id m \<noteq> m_id module_old"
    by (simp add: module_two_def module_old_def)
  have c: "activeModule (on_modules_snapshot [module_two] st) = Some module_old"
    using modules_snapshot_resolves_active_module [of "[module_two]" st] v n by blast
  have h: "currentView st2 \<noteq> ''module'' \<and> currentView st2 \<noteq> ''topic''"
    by (simp add: st2_def)
  have d: "activeModule (on_modules_snapshot [module_two, module_new] st2) = Some module_old"
    using modules_snapshot_resolves_active_module [of "[module_two, module_new]" st2] h
    by (simp add: st2_def)
  from a b c d show ?thesis
    unfolding Let_def st_def st2_def by simp
qed

text \<open>
  Where the code departs from C8 as stated. In the modules view (the course subscription
  sets that view without clearing the active module) a module is still selected; a
  notification that carries a new version of it, under the same identifier, does not
  re-resolve the reference: the old object stays.
\<close>

theorem active_module_kept_outside_module_views:
  "(let st = ready_state\<lparr>currentView := ''modules'', activeModule := Some module_old\<rparr>
    in activeModule st = Some module_old
       \<and> module_new \<in> set [module_two, module_new]
       \<and> m_id module_new = m_id module_old
       \<and> modules (on_modules_snapshot [module_two, module_new] st) = [module_new, module_two]
       \<and> activeModule (on_modules_snapshot [module_two, module_new] st) = Some module_old
       \<and> module_old \<noteq> module_new)"
  by (simp add: on_modules_snapshot_def Let_def ready_state_def module_old_def module_new_def
      module_two_def)

section \<open>Properties of generate-course\<close>
























end
